theory Spec2Isabelle
  imports Main
begin

section \<open>Python values\<close>

text \<open>
  The exceptions the program can meet. \<open>ServiceError\<close> stands for whatever the
  spreadsheet or the messaging service raises.
\<close>

datatype exn =
    ValueError string
  | TypeError string
  | AttributeError string
  | IndexError string
  | ServiceError string

text \<open>
  The objects \<open>request.get_json\<close> hands to the program. A float is given by whether it is
  non-zero and by the text \<open>str\<close> prints for it, which is all the program can observe of
  it. A dict is its items in insertion order, with distinct keys. An int is one that the
  decoder of the request or \<open>int\<close> has returned: both refuse more than 4300 digits, so
  \<open>str\<close> of it, which has the same limit, returns.
\<close>

datatype json =
    JNull
  | JBool bool
  | JInt int
  | JFloat bool string
  | JStr string
  | JList "json list"
  | JObj "(string \<times> json) list"

text \<open>Truth value of an object, as \<open>or\<close>, \<open>not\<close> and \<open>if\<close> take it.\<close>

fun truthy :: "json \<Rightarrow> bool" where
  "truthy JNull = False"
| "truthy (JBool b) = b"
| "truthy (JInt i) = (i \<noteq> 0)"
| "truthy (JFloat nonzero text) = nonzero"
| "truthy (JStr s) = (s \<noteq> [])"
| "truthy (JList xs) = (xs \<noteq> [])"
| "truthy (JObj kvs) = (kvs \<noteq> [])"

text \<open>\<open>bool\<close> is a subclass of \<open>int\<close>: \<open>isinstance(True, int)\<close> holds and \<open>True == 1\<close>.\<close>

fun isinstance_int :: "json \<Rightarrow> bool" where
  "isinstance_int (JInt i) = True"
| "isinstance_int (JBool b) = True"
| "isinstance_int v = False"

fun int_value :: "json \<Rightarrow> int" where
  "int_value (JInt i) = i"
| "int_value (JBool b) = (if b then 1 else 0)"
| "int_value v = 0"

section \<open>Strings and regular expressions of the helpers\<close>

text \<open>
  A Python \<open>str\<close> is modelled as a \<open>string\<close> whose characters are the code points
  below 256, so \<open>length\<close> is Python's \<open>len\<close>. Among these code points the regular
  expression class \<open>\d\<close> matches exactly the ASCII digits, while \<open>str.isdigit\<close> also
  accepts the three superscript digits.
\<close>

definition is_digit :: "char \<Rightarrow> bool" where
  "is_digit c = (c \<in> set ''0123456789'')"

definition is_unicode_digit :: "char \<Rightarrow> bool" where
  "is_unicode_digit c = (is_digit c \<or> c = CHR 0xB2 \<or> c = CHR 0xB3 \<or> c = CHR 0xB9)"

definition isdigit :: "string \<Rightarrow> bool" where
  "isdigit s = (s \<noteq> [] \<and> list_all is_unicode_digit s)"

definition is_space :: "char \<Rightarrow> bool" where
  "is_space c = (c \<in> set [CHR 0x09, CHR 0x0A, CHR 0x0B, CHR 0x0C, CHR 0x0D, CHR 0x1C, CHR 0x1D,
     CHR 0x1E, CHR 0x1F, CHR 0x20, CHR 0x85, CHR 0xA0])"

text \<open>\<open>str.strip()\<close>.\<close>

definition strip :: "string \<Rightarrow> string" where
  "strip s = rev (dropWhile is_space (rev (dropWhile is_space s)))"

text \<open>\<open>str.split(sep)\<close> for a separator of one character.\<close>

fun split :: "char \<Rightarrow> string \<Rightarrow> string list" where
  "split sep [] = [[]]"
| "split sep (c # cs) =
     (if c = sep then [] # split sep cs
      else (case split sep cs of [] \<Rightarrow> [[c]] | p # ps \<Rightarrow> (c # p) # ps))"

text \<open>\<open>sep.join(xs)\<close>.\<close>

fun join :: "string \<Rightarrow> string list \<Rightarrow> string" where
  "join sep [] = []"
| "join sep [x] = x"
| "join sep (x # y # ys) = x @ sep @ join sep (y # ys)"

text \<open>\<open>re.sub(r"\D+", "", s)\<close>: every maximal run of non-digits is replaced by nothing.\<close>

function sub_non_digits :: "string \<Rightarrow> string" where
  "sub_non_digits [] = []"
| "sub_non_digits (c # cs) =
     (if is_digit c then c # sub_non_digits cs
      else sub_non_digits (dropWhile (\<lambda>d. \<not> is_digit d) cs))"
  by pat_completeness auto
termination
  by (relation "measure length") (auto simp: length_dropWhile_le less_Suc_eq_le)

text \<open>\<open>re.findall(r"\d+", s)\<close>: the maximal runs of digits, from left to right.\<close>

function findall_digits :: "string \<Rightarrow> string list" where
  "findall_digits [] = []"
| "findall_digits (c # cs) =
     (if is_digit c
      then takeWhile is_digit (c # cs) # findall_digits (dropWhile is_digit cs)
      else findall_digits cs)"
  by pat_completeness auto
termination
  by (relation "measure length") (auto simp: length_dropWhile_le less_Suc_eq_le)

text \<open>\<open>str.startswith\<close>.\<close>

definition startswith :: "string \<Rightarrow> string \<Rightarrow> bool" where
  "startswith s p = (take (length p) s = p)"

subsection \<open>Printing and reading integers\<close>

definition digit_char :: "nat \<Rightarrow> char" where
  "digit_char n = ''0123456789abcdef'' ! n"

definition digit_val :: "char \<Rightarrow> nat" where
  "digit_val c = of_char c - 48"

fun str_nat :: "nat \<Rightarrow> string" where
  "str_nat n = (if n < 10 then [digit_char n] else str_nat (n div 10) @ [digit_char (n mod 10)])"

declare str_nat.simps [simp del]

definition str_int :: "int \<Rightarrow> string" where
  "str_int i = (if i < 0 then CHR ''-'' # str_nat (nat (- i)) else str_nat (nat i))"

definition int_of_digits :: "string \<Rightarrow> int" where
  "int_of_digits ds = int (foldl (\<lambda>a c. 10 * a + digit_val c) 0 ds)"

subsection \<open>\<open>repr\<close> and \<open>str\<close>\<close>

definition is_printable :: "char \<Rightarrow> bool" where
  "is_printable c =
     (let n = (of_char c :: nat) in (32 \<le> n \<and> n < 127) \<or> (160 < n \<and> n \<noteq> 173))"

definition repr_char :: "char \<Rightarrow> char \<Rightarrow> string" where
  "repr_char quote c =
     (if c = quote \<or> c = CHR 0x5C then [CHR 0x5C, c]
      else if c = CHR 0x09 then [CHR 0x5C, CHR ''t'']
      else if c = CHR 0x0A then [CHR 0x5C, CHR ''n'']
      else if c = CHR 0x0D then [CHR 0x5C, CHR ''r'']
      else if is_printable c then [c]
      else [CHR 0x5C, CHR ''x'', digit_char (of_char c div 16), digit_char (of_char c mod 16)])"

definition repr_str :: "string \<Rightarrow> string" where
  "repr_str s =
     (let quote = (if CHR 0x27 \<in> set s \<and> CHR 0x22 \<notin> set s then CHR 0x22 else CHR 0x27)
      in quote # concat (map (repr_char quote) s) @ [quote])"

fun py_repr :: "json \<Rightarrow> string" where
  "py_repr JNull = ''None''"
| "py_repr (JBool b) = (if b then ''True'' else ''False'')"
| "py_repr (JInt i) = str_int i"
| "py_repr (JFloat nonzero text) = text"
| "py_repr (JStr s) = repr_str s"
| "py_repr (JList xs) = ''['' @ join '', '' (map py_repr xs) @ '']''"
| "py_repr (JObj kvs) =
     ''{'' @ join '', '' (map (\<lambda>kv. repr_str (fst kv) @ '': '' @ py_repr (snd kv)) kvs) @ ''}''"

fun py_str :: "json \<Rightarrow> string" where
  "py_str (JStr s) = s"
| "py_str v = py_repr v"

text \<open>
  \<open>int(s)\<close> on a string without sign, blanks or underscores, which is what the program
  passes at both of its calls: a run matched by \<open>\d+\<close>, or a stripped string that passed
  \<open>isdigit\<close>. The conversion first reads the digits the string starts with and refuses
  more than 4300 of them, the default limit of CPython, leading zeros counted; then anything
  but a string of digits is an invalid literal, shown in the message by the first 200
  characters of its \<open>repr\<close>.
\<close>

definition py_int :: "string \<Rightarrow> exn + int" where
  "py_int s =
     (let digits = length (takeWhile is_digit s) in
      if 4300 < digits then
        Inl (ValueError (''Exceeds the limit (4300 digits) for integer string conversion: value has ''
               @ str_nat digits @ '' digits; use sys.set_int_max_str_digits() to increase the limit''))
      else if s \<noteq> [] \<and> list_all is_digit s then Inr (int_of_digits s)
      else Inl (ValueError (''invalid literal for int() with base 10: '' @ take 200 (repr_str s))))"

subsection \<open>Comprehensions and indexing that can raise\<close>

text \<open>A list comprehension whose element expression may raise: the first exception ends it.\<close>

fun traverse :: "('a \<Rightarrow> exn + 'b) \<Rightarrow> 'a list \<Rightarrow> exn + 'b list" where
  "traverse f [] = Inr []"
| "traverse f (x # xs) =
     (case f x of
        Inl e \<Rightarrow> Inl e
      | Inr y \<Rightarrow> (case traverse f xs of Inl e \<Rightarrow> Inl e | Inr ys \<Rightarrow> Inr (y # ys)))"

text \<open>\<open>xs[i]\<close> for an index that is not negative.\<close>

definition getitem :: "'a list \<Rightarrow> nat \<Rightarrow> exn + 'a" where
  "getitem xs i = (if i < length xs then Inr (xs ! i) else Inl (IndexError ''list index out of range''))"

section \<open>Input normalizer\<close>

text \<open>\<open>extract_ints_from_string\<close> (app.py, lines 115 and 116).\<close>

definition extract_ints_from_string :: "string \<Rightarrow> exn + int list" where
  "extract_ints_from_string s = traverse py_int (findall_digits s)"

text \<open>
  \<open>normalize_seats\<close> (app.py, lines 119 to 129). The loop over the items of a list keeps
  the result built so far.
\<close>

fun seats_loop :: "json list \<Rightarrow> json list \<Rightarrow> exn + json list" where
  "seats_loop [] result = Inr result"
| "seats_loop (item # items) result =
     (if isinstance_int item then seats_loop items (result @ [item])
      else (case item of
              JStr s \<Rightarrow>
                (case extract_ints_from_string s of
                   Inl e \<Rightarrow> Inl e
                 | Inr ns \<Rightarrow> seats_loop items (result @ map JInt ns))
            | _ \<Rightarrow> seats_loop items result))"

definition normalize_seats :: "json \<Rightarrow> exn + json list" where
  "normalize_seats seats =
     (case seats of
        JList items \<Rightarrow> seats_loop items []
      | JStr s \<Rightarrow>
          (case extract_ints_from_string s of Inl e \<Rightarrow> Inl e | Inr ns \<Rightarrow> Inr ([] @ map JInt ns))
      | _ \<Rightarrow> Inr [])"

text \<open>
  \<open>normalize_mobile_to_list\<close> (app.py, lines 132 to 144). In \<open>only_digits\<close>, \<open>s or ""\<close> is
  \<open>s\<close> itself for every object that is true, and \<open>re.findall\<close> raises \<open>TypeError\<close> on an
  object that is not a string.
\<close>

definition only_digits :: "json \<Rightarrow> exn + string" where
  "only_digits s =
     (case (if truthy s then s else JStr []) of
        JStr t \<Rightarrow> Inr (concat (findall_digits t))
      | _ \<Rightarrow> Inl (TypeError ''expected string or bytes-like object''))"

definition normalize_mobile_to_list :: "json \<Rightarrow> exn + string list" where
  "normalize_mobile_to_list mobile =
     (case (case mobile of
              JList ms \<Rightarrow> traverse only_digits ms
            | JStr s \<Rightarrow>
                (let parts = (if CHR '','' \<in> set s then map strip (split CHR '','' s) else [strip s])
                 in traverse only_digits (map JStr parts))
            | _ \<Rightarrow> Inr []) of
        Inl e \<Rightarrow> Inl e
      | Inr out \<Rightarrow> Inr (filter (\<lambda>m. m \<noteq> []) out))"

text \<open>\<open>normalize_names_to_list\<close> (app.py, lines 147 to 153).\<close>

definition normalize_names_to_list :: "json \<Rightarrow> string list" where
  "normalize_names_to_list name =
     (case name of
        JList ns \<Rightarrow> map (\<lambda>n. strip (py_str n)) (filter (\<lambda>n. strip (py_str n) \<noteq> []) ns)
      | JStr s \<Rightarrow>
          (let parts = (if CHR '','' \<in> set s then map strip (split CHR '','' s) else [strip s])
           in filter (\<lambda>p. p \<noteq> []) parts)
      | _ \<Rightarrow> [])"

section \<open>Row pairing engine\<close>

text \<open>The loop that checks the mobiles (app.py, lines 162 to 164).\<close>

fun check_mobiles :: "string list \<Rightarrow> exn + unit" where
  "check_mobiles [] = Inr ()"
| "check_mobiles (m # ms) =
     (if length m < 10 then Inl (ValueError ''Invalid mobile number'') else check_mobiles ms)"

text \<open>One tuple of a comprehension; each of the three reads may raise \<open>IndexError\<close>.\<close>

definition row_at ::
  "string \<Rightarrow> exn + string \<Rightarrow> exn + string \<Rightarrow> exn + 'a \<Rightarrow> exn + (string \<times> string \<times> string \<times> 'a)" where
  "row_at user_code n m s =
     (case n of Inl e \<Rightarrow> Inl e | Inr nm \<Rightarrow>
      (case m of Inl e \<Rightarrow> Inl e | Inr mb \<Rightarrow>
       (case s of Inl e \<Rightarrow> Inl e | Inr seat \<Rightarrow> Inr (user_code, nm, mb, seat))))"

text \<open>\<open>pair_rows_for_booking\<close> (app.py, lines 156 to 178).\<close>

definition pair_rows_for_booking ::
  "string \<Rightarrow> string list \<Rightarrow> string list \<Rightarrow> 'a list \<Rightarrow> exn + (string \<times> string \<times> string \<times> 'a) list" where
  "pair_rows_for_booking user_code names_list mobiles_list seats_ordered =
     (let n_names = length names_list;
          n_mobiles = length mobiles_list;
          n_seats = length seats_ordered
      in case check_mobiles mobiles_list of
           Inl e \<Rightarrow> Inl e
         | Inr u \<Rightarrow>
             if n_names = n_seats \<and> n_mobiles = n_seats then
               traverse (\<lambda>i. row_at user_code (getitem names_list i) (getitem mobiles_list i)
                                (getitem seats_ordered i)) [0..<n_seats]
             else if n_names = 1 \<and> n_mobiles = 1 then
               traverse (\<lambda>s. row_at user_code (getitem names_list 0) (getitem mobiles_list 0)
                                (Inr s)) seats_ordered
             else if n_names = 1 \<and> n_mobiles = n_seats then
               traverse (\<lambda>i. row_at user_code (getitem names_list 0) (getitem mobiles_list i)
                                (getitem seats_ordered i)) [0..<n_seats]
             else if n_mobiles = 1 \<and> n_names = n_seats then
               traverse (\<lambda>i. row_at user_code (getitem names_list i) (getitem mobiles_list 0)
                                (getitem seats_ordered i)) [0..<n_seats]
             else Inl (ValueError ''Cannot pair names/mobiles/seats''))"

section \<open>Configuration, external services and the world\<close>

text \<open>The keyword arguments of \<open>twilio_client.messages.create\<close> (app.py, lines 52 to 61).\<close>

record payload =
  from_ :: "string option"
  to :: string
  content_sid :: "string option"
  content_variables :: "(string \<times> string) list"

text \<open>What the program prints, one entry per \<open>print\<close> call.\<close>

datatype log_entry =
    Warn_unexpected_mobile string string
  | Error_missing_credentials
  | Info_sending payload
  | Info_sent string
  | Error_send_failed exn

text \<open>
  The environment variables read by \<open>os.getenv\<close> (\<open>None\<close> when unset), the clock, and the
  behaviour of the two services: what \<open>messages.create\<close> answers to a payload, and which
  calls of the spreadsheet client raise.
\<close>

record env =
  TWILIO_SID :: "string option"
  TWILIO_AUTH :: "string option"
  TWILIO_WHATSAPP_FROM :: "string option"
  TWILIO_CONTENT_SID_CONCERT :: "string option"
  CLEAR_TOKEN :: "string option"
  EVENT_TIME_STR :: "string option"
  now :: string
  messages_create :: "payload \<Rightarrow> exn + string"
  open_sheet_raises :: "exn option"
  append_row_raises :: "string list list \<Rightarrow> string list \<Rightarrow> exn option"
  col_values_raises :: "exn option"
  batch_clear_raises :: "exn option"

text \<open>The worksheet, as its rows from the top, and the lines printed so far.\<close>

record world =
  sheet :: "string list list"
  printed :: "log_entry list"

text \<open>Truth value of a variable read by \<open>os.getenv\<close>: set and not empty.\<close>

definition is_set :: "string option \<Rightarrow> bool" where
  "is_set v = (case v of None \<Rightarrow> False | Some s \<Rightarrow> s \<noteq> [])"

definition print :: "log_entry list \<Rightarrow> world \<Rightarrow> world" where
  "print entries w = w\<lparr>printed := printed w @ entries\<rparr>"

text \<open>\<open>str(e)\<close> of an exception.\<close>

fun str_exn :: "exn \<Rightarrow> string" where
  "str_exn (ValueError m) = m"
| "str_exn (TypeError m) = m"
| "str_exn (AttributeError m) = m"
| "str_exn (IndexError m) = m"
| "str_exn (ServiceError m) = m"

section \<open>Notification dispatcher\<close>

text \<open>
  \<open>_format_wa_to\<close> (app.py, lines 23 to 33). The result is the returned string together
  with the lines printed. \<open>number_str or ""\<close> is the identity on a \<open>str\<close>.
\<close>

definition format_wa_to :: "string \<Rightarrow> string \<times> log_entry list" where
  "format_wa_to number_str =
     (let digits = sub_non_digits number_str in
      if startswith digits ''91'' \<and> length digits = 12 then (''whatsapp:+'' @ digits, [])
      else if length digits = 10 then (''whatsapp:+91'' @ digits, [])
      else (''whatsapp:+'' @ digits, [Warn_unexpected_mobile number_str digits]))"

text \<open>The body of the \<open>try\<close> of \<open>send_whatsapp_template_concert\<close> (app.py, lines 50 to 68).\<close>

definition send_try :: "env \<Rightarrow> string \<Rightarrow> string \<Rightarrow> json \<Rightarrow> string \<Rightarrow> world \<Rightarrow> (exn + string) \<times> world" where
  "send_try env to_number name seat event_time w =
     (let (to_formatted, warnings) = format_wa_to to_number;
          w1 = print warnings w;
          p = \<lparr>from_ = TWILIO_WHATSAPP_FROM env, to = to_formatted,
               content_sid = TWILIO_CONTENT_SID_CONCERT env,
               content_variables = [(''1'', name), (''2'', py_str seat), (''3'', event_time)]\<rparr>;
          w2 = print [Info_sending p] w1
      in case messages_create env p of
           Inl e \<Rightarrow> (Inl e, w2)
         | Inr sid \<Rightarrow> (Inr sid, print [Info_sent sid] w2))"

text \<open>
  \<open>send_whatsapp_template_concert\<close> (app.py, lines 36 to 72): the check of the four
  variables, then the \<open>try\<close> with its \<open>except Exception\<close>. The result is what the call
  raises or returns (\<open>None\<close> or the message id), with the world after it.
\<close>

definition send_whatsapp_template_concert ::
  "env \<Rightarrow> string \<Rightarrow> string \<Rightarrow> json \<Rightarrow> string \<Rightarrow> world \<Rightarrow> (exn + string option) \<times> world" where
  "send_whatsapp_template_concert env to_number name seat event_time w =
     (if \<not> (is_set (TWILIO_SID env) \<and> is_set (TWILIO_AUTH env)
             \<and> is_set (TWILIO_WHATSAPP_FROM env) \<and> is_set (TWILIO_CONTENT_SID_CONCERT env))
      then (Inr None, print [Error_missing_credentials] w)
      else (case send_try env to_number name seat event_time w of
              (Inl e, w') \<Rightarrow> (Inr None, print [Error_send_failed e] w')
            | (Inr sid, w') \<Rightarrow> (Inr (Some sid), w')))"

section \<open>Booking ledger gateway\<close>

text \<open>\<open>ws.append_row(row)\<close>: the row goes below the last one, unless the service raises.\<close>

definition append_row :: "env \<Rightarrow> world \<Rightarrow> string list \<Rightarrow> exn + world" where
  "append_row env w row =
     (case append_row_raises env (sheet w) row of
        Some e \<Rightarrow> Inl e
      | None \<Rightarrow> Inr (w\<lparr>sheet := sheet w @ [row]\<rparr>))"

text \<open>\<open>get_sheet\<close> (app.py, lines 97 to 105).\<close>

definition get_sheet :: "env \<Rightarrow> world \<Rightarrow> exn + world" where
  "get_sheet env w =
     (case open_sheet_raises env of
        Some e \<Rightarrow> Inl e
      | None \<Rightarrow>
          if sheet w = []
          then append_row env w [''Timestamp'', ''User Code'', ''Name'', ''Mobile'', ''Selected Seats'']
          else Inr w)"

text \<open>
  \<open>clear_google_sheet_values\<close> (app.py, lines 108 to 111): \<open>batch_clear(["A2:ZZZ"])\<close> empties
  every row below the first.
\<close>

definition clear_google_sheet_values :: "env \<Rightarrow> world \<Rightarrow> (exn + string) \<times> world" where
  "clear_google_sheet_values env w =
     (case get_sheet env w of
        Inl e \<Rightarrow> (Inl e, w)
      | Inr w1 \<Rightarrow>
          (case batch_clear_raises env of
             Some e \<Rightarrow> (Inl e, w1)
           | None \<Rightarrow> (Inr ''Sheet cleared'', w1\<lparr>sheet := take 1 (sheet w1)\<rparr>)))"

text \<open>\<open>ws.col_values(n)\<close>: the cells of column \<open>n\<close>, an absent cell being the empty string.\<close>

definition col_values :: "nat \<Rightarrow> string list list \<Rightarrow> string list" where
  "col_values n rows = map (\<lambda>r. if n - 1 < length r then r ! (n - 1) else []) rows"

section \<open>HTTP surface\<close>

text \<open>
  The bodies the routes answer with: \<open>{"ok": .., "message": ..}\<close>, \<open>{"booked": ..}\<close>,
  \<open>{"booked": .., "error": ..}\<close>, and the page Flask sends when a view raises.
\<close>

datatype body =
    OkMessage bool string
  | Booked "int list"
  | BookedError "int list" string
  | InternalServerError

record response =
  status :: nat
  body :: body

text \<open>How a step of the view ends: it raises, it returns a response, or it goes on.\<close>

datatype 'a flow = Raised exn | Returned response | Continue 'a

definition type_name :: "json \<Rightarrow> string" where
  "type_name v =
     (case v of JNull \<Rightarrow> ''NoneType'' | JBool b \<Rightarrow> ''bool'' | JInt i \<Rightarrow> ''int''
      | JFloat z t \<Rightarrow> ''float'' | JStr s \<Rightarrow> ''str'' | JList xs \<Rightarrow> ''list'' | JObj kvs \<Rightarrow> ''dict'')"

text \<open>\<open>booking.get(key, fallback)\<close>: only a dict has the method.\<close>

definition dict_get :: "json \<Rightarrow> string \<Rightarrow> json \<Rightarrow> exn + json" where
  "dict_get d key fallback =
     (case d of
        JObj kvs \<Rightarrow> Inr (case map_of kvs key of None \<Rightarrow> fallback | Some v \<Rightarrow> v)
      | _ \<Rightarrow> Inl (AttributeError ([CHR 0x27] @ type_name d @ [CHR 0x27] @ '' object has no attribute ''
                                 @ [CHR 0x27] @ ''get'' @ [CHR 0x27])))"

text \<open>The items a \<open>for\<close> loop draws from an object.\<close>

definition py_iter :: "json \<Rightarrow> exn + json list" where
  "py_iter v =
     (case v of
        JList xs \<Rightarrow> Inr xs
      | JObj kvs \<Rightarrow> Inr (map (\<lambda>kv. JStr (fst kv)) kvs)
      | JStr s \<Rightarrow> Inr (map (\<lambda>c. JStr [c]) s)
      | _ \<Rightarrow> Inl (TypeError ([CHR 0x27] @ type_name v @ [CHR 0x27] @ '' object is not iterable'')))"

text \<open>The choice of the bookings of a request (app.py, lines 189 and 191).\<close>

definition bookings_of :: "json \<Rightarrow> json" where
  "bookings_of request_json =
     (let data = (if truthy request_json then request_json else JObj []) in
      case data of
        JObj kvs \<Rightarrow> (case map_of kvs ''users'' of Some users \<Rightarrow> users | None \<Rightarrow> JList [data])
      | JList xs \<Rightarrow> data
      | _ \<Rightarrow> JList [data])"

text \<open>
  One booking up to its rows (app.py, lines 200 to 212): the four fields, the check that
  none is empty, the check of the seat numbers, the pairing.
\<close>

definition booking_rows :: "json \<Rightarrow> (string \<times> string \<times> string \<times> json) list flow" where
  "booking_rows booking =
     (case dict_get booking ''user_code'' (JStr []) of Inl e \<Rightarrow> Raised e | Inr uc \<Rightarrow>
      (case dict_get booking ''name'' (JStr []) of Inl e \<Rightarrow> Raised e | Inr nm \<Rightarrow>
      (case dict_get booking ''mobile'' (JStr []) of Inl e \<Rightarrow> Raised e | Inr mb \<Rightarrow>
      (case normalize_mobile_to_list mb of Inl e \<Rightarrow> Raised e | Inr mobiles \<Rightarrow>
      (case dict_get booking ''seats'' (JList []) of Inl e \<Rightarrow> Raised e | Inr st \<Rightarrow>
      (case normalize_seats st of Inl e \<Rightarrow> Raised e | Inr seats \<Rightarrow>
        (let user_code = strip (py_str uc);
             names = normalize_names_to_list nm
         in if names = [] \<or> mobiles = [] \<or> seats = []
            then Returned \<lparr>status = 400, body = OkMessage False ''Name, Mobile, Seat required''\<rparr>
            else (let invalid = filter (\<lambda>s. int_value s < 1 \<or> int_value s > 105) seats
                  in if invalid \<noteq> []
                     then Returned \<lparr>status = 400,
                            body = OkMessage False (''Invalid seats: '' @ py_str (JList invalid))\<rparr>
                     else (case pair_rows_for_booking user_code names mobiles seats of
                             Inl e \<Rightarrow> Raised e
                           | Inr row_tuples \<Rightarrow> Continue row_tuples)))))))))"

text \<open>
  The loop over the rows of one booking (app.py, lines 215 to 219): append the row, note the
  seat, send the message.
\<close>

fun append_loop ::
  "env \<Rightarrow> string \<Rightarrow> string \<Rightarrow> (string \<times> string \<times> string \<times> json) list \<Rightarrow> json list \<Rightarrow> world
   \<Rightarrow> json list flow \<times> world" where
  "append_loop env timestamp event_time [] all_confirmed w = (Continue all_confirmed, w)"
| "append_loop env timestamp event_time ((uc, nm, mb, seat) # rest) all_confirmed w =
     (case append_row env w [timestamp, uc, nm, mb, py_str seat] of
        Inl e \<Rightarrow> (Raised e, w)
      | Inr w1 \<Rightarrow>
          (case send_whatsapp_template_concert env mb nm seat event_time w1 of
             (Inl e, w2) \<Rightarrow> (Raised e, w2)
           | (Inr sid, w2) \<Rightarrow> append_loop env timestamp event_time rest (all_confirmed @ [seat]) w2))"

definition event_time_of :: "env \<Rightarrow> string" where
  "event_time_of env =
     (case EVENT_TIME_STR env of None \<Rightarrow> ''January 31st, 2026 at 7:00 PM'' | Some s \<Rightarrow> s)"

text \<open>The loop over the bookings (app.py, lines 199 to 219).\<close>

fun booking_loop :: "env \<Rightarrow> string \<Rightarrow> json list \<Rightarrow> json list \<Rightarrow> world \<Rightarrow> json list flow \<times> world" where
  "booking_loop env timestamp [] all_confirmed w = (Continue all_confirmed, w)"
| "booking_loop env timestamp (booking # rest) all_confirmed w =
     (case booking_rows booking of
        Raised e \<Rightarrow> (Raised e, w)
      | Returned r \<Rightarrow> (Returned r, w)
      | Continue row_tuples \<Rightarrow>
          (case append_loop env timestamp (event_time_of env) row_tuples all_confirmed w of
             (Continue confirmed, w1) \<Rightarrow> booking_loop env timestamp rest confirmed w1
           | (Raised e, w1) \<Rightarrow> (Raised e, w1)
           | (Returned r, w1) \<Rightarrow> (Returned r, w1)))"

text \<open>
  How the view ends (app.py, lines 221 to 228): the confirmation after the loop, the
  response returned inside it, or the answer of \<open>except Exception\<close>.
\<close>

definition finish :: "json list flow \<Rightarrow> response" where
  "finish f =
     (case f of
        Continue all_confirmed \<Rightarrow>
          \<lparr>status = 200,
           body = OkMessage True (''Thank you for registering! Seat(s) ''
                    @ join '', '' (map py_str all_confirmed) @ '' confirmed.'')\<rparr>
      | Returned r \<Rightarrow> r
      | Raised e \<Rightarrow> \<lparr>status = 500, body = OkMessage False (''Failed: '' @ str_exn e)\<rparr>)"

text \<open>
  \<open>submit\<close> (app.py, lines 187 to 228), from the decoded body of the request.
  \<open>get_sheet\<close> is called outside the \<open>try\<close>: when it raises, Flask answers for the view.
\<close>

definition submit :: "env \<Rightarrow> json \<Rightarrow> world \<Rightarrow> response \<times> world" where
  "submit env request_json w =
     (let bookings = bookings_of request_json in
      case get_sheet env w of
        Inl e \<Rightarrow> (\<lparr>status = 500, body = InternalServerError\<rparr>, w)
      | Inr ws \<Rightarrow>
          (let timestamp = now env in
           case py_iter bookings of
             Inl e \<Rightarrow> (finish (Raised e), ws)
           | Inr bs \<Rightarrow>
               (case booking_loop env timestamp bs [] ws of (f, w1) \<Rightarrow> (finish f, w1))))"

text \<open>
  The comprehension of \<open>booked_seats\<close> (app.py, line 236) over the cells of the seat
  column.
\<close>

definition parse_booked :: "string list \<Rightarrow> exn + int list" where
  "parse_booked cells =
     traverse (\<lambda>s. py_int (strip s))
       (filter (\<lambda>s. isdigit (strip s)) (concat (map (split CHR '','') cells)))"

text \<open>\<open>booked_seats\<close> (app.py, lines 231 to 239).\<close>

definition booked_seats :: "env \<Rightarrow> world \<Rightarrow> response \<times> world" where
  "booked_seats env w =
     (case get_sheet env w of
        Inl e \<Rightarrow> (\<lparr>status = 200, body = BookedError [] (str_exn e)\<rparr>, w)
      | Inr ws \<Rightarrow>
          (case col_values_raises env of
             Some e \<Rightarrow> (\<lparr>status = 200, body = BookedError [] (str_exn e)\<rparr>, ws)
           | None \<Rightarrow>
               (case parse_booked (drop 1 (col_values 5 (sheet ws))) of
                  Inl e \<Rightarrow> (\<lparr>status = 200, body = BookedError [] (str_exn e)\<rparr>, ws)
                | Inr booked \<Rightarrow> (\<lparr>status = 200, body = Booked booked\<rparr>, ws))))"

text \<open>
  \<open>clear_sheet_route\<close> (app.py, lines 252 to 259); the second argument is the value of the
  header \<open>X-CLEAR-TOKEN\<close>, \<open>None\<close> when the request has none.
\<close>

definition clear_sheet_route :: "env \<Rightarrow> string option \<Rightarrow> world \<Rightarrow> response \<times> world" where
  "clear_sheet_route env header w =
     (if is_set (CLEAR_TOKEN env) \<and> header \<noteq> CLEAR_TOKEN env
      then (\<lparr>status = 401, body = OkMessage False ''Unauthorized''\<rparr>, w)
      else (case clear_google_sheet_values env w of
              (Inr message, w1) \<Rightarrow> (\<lparr>status = 200, body = OkMessage True message\<rparr>, w1)
            | (Inl e, w1) \<Rightarrow> (\<lparr>status = 200, body = OkMessage False (str_exn e)\<rparr>, w1)))"

section \<open>Example configurations\<close>

text \<open>
  A configuration with both services answering, one without the messaging variables, and
  a worksheet that holds its header row only.
\<close>

definition example_env :: env where
  "example_env =
     \<lparr>TWILIO_SID = Some ''AC0001'', TWILIO_AUTH = Some ''secret'',
      TWILIO_WHATSAPP_FROM = Some ''whatsapp:+919901760422'',
      TWILIO_CONTENT_SID_CONCERT = Some ''HX0001'',
      CLEAR_TOKEN = None, EVENT_TIME_STR = None, now = ''2026-01-01 10:00:00'',
      messages_create = (\<lambda>p. Inr ''SM0001''),
      open_sheet_raises = None, append_row_raises = (\<lambda>rows row. None),
      col_values_raises = None, batch_clear_raises = None\<rparr>"

definition no_notifier_env :: env where
  "no_notifier_env =
     example_env\<lparr>TWILIO_SID := None, TWILIO_AUTH := None,
       messages_create := (\<lambda>p. Inl (ServiceError ''Unable to create record''))\<rparr>"

definition header_world :: world where
  "header_world =
     \<lparr>sheet = [[''Timestamp'', ''User Code'', ''Name'', ''Mobile'', ''Selected Seats'']],
      printed = []\<rparr>"

section \<open>Properties\<close>

lemma filter_dropWhile_not:
  "filter P (dropWhile (\<lambda>d. \<not> P d) xs) = filter P xs"
  by (induction xs) auto

lemma sub_non_digits_filter: "sub_non_digits s = filter is_digit s"
  by (induction s rule: sub_non_digits.induct) (simp_all add: filter_dropWhile_not)

text \<open>
  Claim C5. The destination formatter keeps only the digits of its input. When they start
  with 91 and are exactly 12, the result is whatsapp:+ followed by them; otherwise, when
  they are exactly 10, the result is whatsapp:+91 followed by them; otherwise the result is
  whatsapp:+ followed by the digits, and this last case alone prints a warning. The three
  examples of the specification come out as stated.
\<close>

theorem format_wa_to_rule:
  fixes s :: string
  defines "d \<equiv> filter is_digit s"
  shows "(startswith d ''91'' \<and> length d = 12 \<longrightarrow> format_wa_to s = (''whatsapp:+'' @ d, []))
       \<and> (\<not> (startswith d ''91'' \<and> length d = 12) \<and> length d = 10 \<longrightarrow>
            format_wa_to s = (''whatsapp:+91'' @ d, []))
       \<and> (\<not> (startswith d ''91'' \<and> length d = 12) \<and> length d \<noteq> 10 \<longrightarrow>
            format_wa_to s = (''whatsapp:+'' @ d, [Warn_unexpected_mobile s d]))
       \<and> fst (format_wa_to ''9876543210'') = ''whatsapp:+919876543210''
       \<and> fst (format_wa_to ''919876543210'') = ''whatsapp:+919876543210''
       \<and> format_wa_to ''+1234567890123'' =
            (''whatsapp:+1234567890123'',
             [Warn_unexpected_mobile ''+1234567890123'' ''1234567890123''])"
  unfolding d_def
  by (simp add: format_wa_to_def sub_non_digits_filter startswith_def is_digit_def Let_def)

theorem format_wa_to_rule_witness:
  "format_wa_to ''98765-43210'' = (''whatsapp:+919876543210'', [])
   \<and> format_wa_to ''+91 98765 43210'' = (''whatsapp:+919876543210'', [])
   \<and> format_wa_to ''12345'' = (''whatsapp:+12345'', [Warn_unexpected_mobile ''12345'' ''12345''])"
  using format_wa_to_rule [of "''98765-43210''"] format_wa_to_rule [of "''+91 98765 43210''"]
    format_wa_to_rule [of "''12345''"]
  by (simp add: is_digit_def startswith_def)

subsection \<open>Row pairing engine\<close>

lemma traverse_all_Inr:
  "(\<And>x. x \<in> set xs \<Longrightarrow> f x = Inr (g x)) \<Longrightarrow> traverse f xs = Inr (map g xs)"
  by (induction xs) simp_all

lemma check_mobiles_Inr: "(check_mobiles ms = Inr u) = (\<forall>m\<in>set ms. 10 \<le> length m)"
  by (induction ms) auto

lemma check_mobiles_Inl:
  "(check_mobiles ms = Inl e) = (e = ValueError ''Invalid mobile number'' \<and> (\<exists>m\<in>set ms. length m < 10))"
  by (induction ms) auto

lemma row_at_getitem:
  "i < length ns \<Longrightarrow> j < length ms \<Longrightarrow> k < length ss \<Longrightarrow>
   row_at uc (getitem ns i) (getitem ms j) (getitem ss k) = Inr (uc, ns ! i, ms ! j, ss ! k)"
  by (simp add: row_at_def getitem_def)

lemma row_at_seat:
  "i < length ns \<Longrightarrow> j < length ms \<Longrightarrow>
   row_at uc (getitem ns i) (getitem ms j) (Inr s) = Inr (uc, ns ! i, ms ! j, s)"
  by (simp add: row_at_def getitem_def)

lemma pair_rows_unfold:
  "check_mobiles ms = Inr () \<Longrightarrow>
   pair_rows_for_booking uc ns ms ss =
     (if length ns = length ss \<and> length ms = length ss then
        traverse (\<lambda>i. row_at uc (getitem ns i) (getitem ms i) (getitem ss i)) [0..<length ss]
      else if length ns = 1 \<and> length ms = 1 then
        traverse (\<lambda>s. row_at uc (getitem ns 0) (getitem ms 0) (Inr s)) ss
      else if length ns = 1 \<and> length ms = length ss then
        traverse (\<lambda>i. row_at uc (getitem ns 0) (getitem ms i) (getitem ss i)) [0..<length ss]
      else if length ms = 1 \<and> length ns = length ss then
        traverse (\<lambda>i. row_at uc (getitem ns i) (getitem ms 0) (getitem ss i)) [0..<length ss]
      else Inl (ValueError ''Cannot pair names/mobiles/seats''))"
  by (simp only: pair_rows_for_booking_def Let_def sum.case)

lemma traverse_index:
  "(\<And>i. i < n \<Longrightarrow> f i = Inr (g i)) \<Longrightarrow> traverse f [0..<n] = Inr (map g [0..<n])"
  by (rule traverse_all_Inr) simp

lemma pair_rule1:
  assumes "check_mobiles ms = Inr ()" and r1: "length ns = length ss \<and> length ms = length ss"
  shows "pair_rows_for_booking uc ns ms ss = Inr (map (\<lambda>i. (uc, ns ! i, ms ! i, ss ! i)) [0..<length ss])"
proof -
  have "traverse (\<lambda>i. row_at uc (getitem ns i) (getitem ms i) (getitem ss i)) [0..<length ss]
        = Inr (map (\<lambda>i. (uc, ns ! i, ms ! i, ss ! i)) [0..<length ss])"
    by (rule traverse_index) (simp add: row_at_getitem r1)
  then show ?thesis
    by (simp only: pair_rows_unfold [OF assms(1)] r1 if_True simp_thms)
qed

lemma pair_rule2:
  assumes "check_mobiles ms = Inr ()" and r1: "\<not> (length ns = length ss \<and> length ms = length ss)"
    and r2: "length ns = 1 \<and> length ms = 1"
  shows "pair_rows_for_booking uc ns ms ss = Inr (map (\<lambda>s. (uc, ns ! 0, ms ! 0, s)) ss)"
proof -
  have "traverse (\<lambda>s. row_at uc (getitem ns 0) (getitem ms 0) (Inr s)) ss
        = Inr (map (\<lambda>s. (uc, ns ! 0, ms ! 0, s)) ss)"
    by (rule traverse_all_Inr) (simp add: row_at_seat r2)
  then show ?thesis
    using r1 r2 by (simp only: pair_rows_unfold [OF assms(1)] if_True if_False simp_thms)
qed

lemma pair_rule3:
  assumes "check_mobiles ms = Inr ()" and r1: "\<not> (length ns = length ss \<and> length ms = length ss)"
    and r2: "\<not> (length ns = 1 \<and> length ms = 1)" and r3: "length ns = 1 \<and> length ms = length ss"
  shows "pair_rows_for_booking uc ns ms ss = Inr (map (\<lambda>i. (uc, ns ! 0, ms ! i, ss ! i)) [0..<length ss])"
proof -
  have "traverse (\<lambda>i. row_at uc (getitem ns 0) (getitem ms i) (getitem ss i)) [0..<length ss]
        = Inr (map (\<lambda>i. (uc, ns ! 0, ms ! i, ss ! i)) [0..<length ss])"
    by (rule traverse_index) (simp add: row_at_getitem r3)
  then show ?thesis
    using r1 r2 r3 by (simp only: pair_rows_unfold [OF assms(1)] if_True if_False simp_thms)
qed

lemma pair_rule4:
  assumes "check_mobiles ms = Inr ()" and r1: "\<not> (length ns = length ss \<and> length ms = length ss)"
    and r2: "\<not> (length ns = 1 \<and> length ms = 1)" and r3: "\<not> (length ns = 1 \<and> length ms = length ss)"
    and r4: "length ms = 1 \<and> length ns = length ss"
  shows "pair_rows_for_booking uc ns ms ss = Inr (map (\<lambda>i. (uc, ns ! i, ms ! 0, ss ! i)) [0..<length ss])"
proof -
  have "traverse (\<lambda>i. row_at uc (getitem ns i) (getitem ms 0) (getitem ss i)) [0..<length ss]
        = Inr (map (\<lambda>i. (uc, ns ! i, ms ! 0, ss ! i)) [0..<length ss])"
    by (rule traverse_index) (simp add: row_at_getitem r4)
  then show ?thesis
    using r1 r2 r3 r4 by (simp only: pair_rows_unfold [OF assms(1)] if_True if_False simp_thms)
qed

lemma pair_rule5:
  assumes "check_mobiles ms = Inr ()" and r1: "\<not> (length ns = length ss \<and> length ms = length ss)"
    and r2: "\<not> (length ns = 1 \<and> length ms = 1)" and r3: "\<not> (length ns = 1 \<and> length ms = length ss)"
    and r4: "\<not> (length ms = 1 \<and> length ns = length ss)"
  shows "pair_rows_for_booking uc ns ms ss = Inl (ValueError ''Cannot pair names/mobiles/seats'')"
  using r1 r2 r3 r4 by (simp only: pair_rows_unfold [OF assms(1)] if_False simp_thms)

lemma pair_invalid_mobile:
  assumes "check_mobiles ms = Inl e"
  shows "pair_rows_for_booking uc ns ms ss = Inl e"
  using assms by (simp add: pair_rows_for_booking_def Let_def)

lemma check_mobiles_unit: "(\<forall>m\<in>set ms. 10 \<le> length m) \<Longrightarrow> check_mobiles ms = Inr ()"
  by (simp add: check_mobiles_Inr)

lemma pair_rows_outcome:
  assumes "check_mobiles ms = Inr ()"
  shows "(\<exists>rows. pair_rows_for_booking uc ns ms ss = Inr rows \<and> length rows = length ss)
       \<or> pair_rows_for_booking uc ns ms ss = Inl (ValueError ''Cannot pair names/mobiles/seats'')"
proof -
  consider (a) "length ns = length ss \<and> length ms = length ss"
    | (b) "\<not> (length ns = length ss \<and> length ms = length ss)" "length ns = 1 \<and> length ms = 1"
    | (c) "\<not> (length ns = length ss \<and> length ms = length ss)" "\<not> (length ns = 1 \<and> length ms = 1)"
          "length ns = 1 \<and> length ms = length ss"
    | (d) "\<not> (length ns = length ss \<and> length ms = length ss)" "\<not> (length ns = 1 \<and> length ms = 1)"
          "\<not> (length ns = 1 \<and> length ms = length ss)" "length ms = 1 \<and> length ns = length ss"
    | (e) "\<not> (length ns = length ss \<and> length ms = length ss)" "\<not> (length ns = 1 \<and> length ms = 1)"
          "\<not> (length ns = 1 \<and> length ms = length ss)" "\<not> (length ms = 1 \<and> length ns = length ss)"
    by blast
  then show ?thesis
  proof cases
    case a then show ?thesis by (simp add: pair_rule1 [OF assms])
  next
    case b then show ?thesis by (simp add: pair_rule2 [OF assms])
  next
    case c then show ?thesis by (simp add: pair_rule3 [OF assms])
  next
    case d then show ?thesis by (simp add: pair_rule4 [OF assms])
  next
    case e then show ?thesis by (simp add: pair_rule5 [OF assms])
  qed
qed

text \<open>
  Claim C1. When every mobile has at least ten characters, \<open>pair_rows_for_booking\<close> takes
  the first rule that applies, in the order of the source: all three counts equal, pair by
  index; else one name and one mobile, repeat both for every seat; else one name and as many
  mobiles as seats, repeat the name; else one mobile and as many names as seats, repeat the
  mobile; else it raises \<open>ValueError\<close> with the text of the pairing failure. Whenever it
  returns, it returns one tuple per seat. Nothing is asked of the names, of the characters of
  the mobiles or of the number of seats, so the inputs of the claim are covered.
\<close>

theorem pair_rows_for_booking_rules:
  fixes names :: "string list" and mobiles :: "string list" and seats :: "'a list"
  assumes mob: "\<forall>m\<in>set mobiles. 10 \<le> length m"
  defines "n1 \<equiv> length names" and "n2 \<equiv> length mobiles" and "n3 \<equiv> length seats"
  defines "r1 \<equiv> n1 = n3 \<and> n2 = n3" and "r2 \<equiv> n1 = 1 \<and> n2 = 1"
    and "r3 \<equiv> n1 = 1 \<and> n2 = n3" and "r4 \<equiv> n2 = 1 \<and> n1 = n3"
  shows "(r1 \<longrightarrow> pair_rows_for_booking uc names mobiles seats =
            Inr (map (\<lambda>i. (uc, names ! i, mobiles ! i, seats ! i)) [0..<n3]))
       \<and> (\<not> r1 \<and> r2 \<longrightarrow> pair_rows_for_booking uc names mobiles seats =
            Inr (map (\<lambda>s. (uc, names ! 0, mobiles ! 0, s)) seats))
       \<and> (\<not> r1 \<and> \<not> r2 \<and> r3 \<longrightarrow> pair_rows_for_booking uc names mobiles seats =
            Inr (map (\<lambda>i. (uc, names ! 0, mobiles ! i, seats ! i)) [0..<n3]))
       \<and> (\<not> r1 \<and> \<not> r2 \<and> \<not> r3 \<and> r4 \<longrightarrow> pair_rows_for_booking uc names mobiles seats =
            Inr (map (\<lambda>i. (uc, names ! i, mobiles ! 0, seats ! i)) [0..<n3]))
       \<and> (\<not> r1 \<and> \<not> r2 \<and> \<not> r3 \<and> \<not> r4 \<longrightarrow> pair_rows_for_booking uc names mobiles seats =
            Inl (ValueError ''Cannot pair names/mobiles/seats''))
       \<and> (\<forall>rows. pair_rows_for_booking uc names mobiles seats = Inr rows \<longrightarrow> length rows = n3)"
proof -
  have ok: "check_mobiles mobiles = Inr ()"
    using mob by (rule check_mobiles_unit)
  have len: "\<forall>rows. pair_rows_for_booking uc names mobiles seats = Inr rows \<longrightarrow> length rows = n3"
    using pair_rows_outcome [OF ok, of uc names seats] unfolding n3_def by auto
  note rules = pair_rule1 [OF ok, of names seats uc] pair_rule2 [OF ok, of names seats uc]
    pair_rule3 [OF ok, of names seats uc] pair_rule4 [OF ok, of names seats uc]
    pair_rule5 [OF ok, of names seats uc]
  show ?thesis
    unfolding r1_def r2_def r3_def r4_def n1_def n2_def n3_def
    using len [unfolded n3_def] rules by blast
qed

theorem pair_rows_for_booking_rules_witness:
  "pair_rows_for_booking ''A1'' [''Asha'', ''Ravi''] [''9876543210'', ''9988776655''] [10, 11 :: int]
     = Inr [(''A1'', ''Asha'', ''9876543210'', 10), (''A1'', ''Ravi'', ''9988776655'', 11)]
   \<and> pair_rows_for_booking ''A1'' [''Asha''] [''9876543210''] [1, 2, 3 :: int]
     = Inr [(''A1'', ''Asha'', ''9876543210'', 1), (''A1'', ''Asha'', ''9876543210'', 2),
            (''A1'', ''Asha'', ''9876543210'', 3)]
   \<and> pair_rows_for_booking ''A1'' [''Asha'', ''Ravi''] [''9876543210'', ''9988776655'', ''9000000001'']
        [1, 2, 3 :: int] = Inl (ValueError ''Cannot pair names/mobiles/seats'')"
  using pair_rows_for_booking_rules [of "[''9876543210'', ''9988776655'']" "[''Asha'', ''Ravi'']"
      "[10, 11 :: int]" "''A1''"]
    pair_rows_for_booking_rules [of "[''9876543210'']" "[''Asha'']" "[1, 2, 3 :: int]" "''A1''"]
    pair_rows_for_booking_rules [of "[''9876543210'', ''9988776655'', ''9000000001'']"
      "[''Asha'', ''Ravi'']" "[1, 2, 3 :: int]" "''A1''"]
  by (simp add: upt_rec)

text \<open>
  Claim C2. \<open>pair_rows_for_booking\<close> raises \<open>ValueError\<close> with the text of the invalid mobile
  exactly when some mobile has fewer than ten characters, whatever the three counts are; it
  then returns no tuple, since its result is the exception.
\<close>

theorem invalid_mobile_iff:
  "((\<exists>m\<in>set mobiles. length m < 10) \<longrightarrow>
      pair_rows_for_booking uc names mobiles seats = Inl (ValueError ''Invalid mobile number''))
   \<and> (pair_rows_for_booking uc names mobiles seats = Inl (ValueError ''Invalid mobile number'') \<longrightarrow>
      (\<exists>m\<in>set mobiles. length m < 10))"
proof (cases "check_mobiles mobiles")
  case (Inl e)
  then show ?thesis
    using pair_invalid_mobile [OF Inl, of uc names seats] by (auto simp: check_mobiles_Inl)
next
  case (Inr u)
  then have ok: "check_mobiles mobiles = Inr ()" by simp
  then have "\<not> (\<exists>m\<in>set mobiles. length m < 10)"
    by (auto simp: check_mobiles_Inr)
  then show ?thesis
    using pair_rows_outcome [OF ok, of uc names seats] by auto
qed

theorem invalid_mobile_iff_witness:
  "pair_rows_for_booking ''A1'' [''Asha''] [''12345''] [7 :: int] = Inl (ValueError ''Invalid mobile number'')
   \<and> pair_rows_for_booking ''A1'' [''Asha'', ''Ravi''] [''9876543210'', ''12345'', ''9988776655''] [7 :: int]
       = Inl (ValueError ''Invalid mobile number'')
   \<and> (\<exists>m\<in>set [''9876543210'', ''12345'', ''9988776655'']. length m < 10)"
  using invalid_mobile_iff [of "[''12345'']" "''A1''" "[''Asha'']" "[7 :: int]"]
    invalid_mobile_iff [of "[''9876543210'', ''12345'', ''9988776655'']" "''A1''" "[''Asha'', ''Ravi'']" "[7 :: int]"]
  by simp

subsection \<open>Input normalizer\<close>

lemma digit_char_digit: "k < 10 \<Longrightarrow> is_digit (digit_char k) \<and> digit_val (digit_char k) = k"
proof -
  assume "k < 10"
  then have "k = 0 \<or> k = 1 \<or> k = 2 \<or> k = 3 \<or> k = 4 \<or> k = 5 \<or> k = 6 \<or> k = 7 \<or> k = 8 \<or> k = 9"
    by arith
  then show ?thesis
    by (elim disjE) (simp_all add: digit_char_def is_digit_def digit_val_def)
qed

lemma str_nat_digits: "str_nat n \<noteq> [] \<and> list_all is_digit (str_nat n)"
proof (induction n rule: str_nat.induct)
  case (1 n)
  show ?case
  proof (cases "n < 10")
    case True
    then show ?thesis by (subst (1 2) str_nat.simps) (simp add: digit_char_digit)
  next
    case False
    with 1 show ?thesis by (subst (1 2) str_nat.simps) (simp add: digit_char_digit)
  qed
qed

lemma foldl_digits_snoc:
  "foldl (\<lambda>a c. 10 * a + digit_val c) 0 (ds @ [c]) = 10 * foldl (\<lambda>a c. 10 * a + digit_val c) 0 ds + digit_val c"
  by simp

lemma int_of_digits_str_nat: "int_of_digits (str_nat n) = int n"
proof (induction n rule: str_nat.induct)
  case (1 n)
  show ?case
  proof (cases "n < 10")
    case True
    then show ?thesis by (subst str_nat.simps) (simp add: int_of_digits_def digit_char_digit)
  next
    case False
    then have "foldl (\<lambda>a c. 10 * a + digit_val c) 0 (str_nat (n div 10)) = n div 10"
      using 1 by (simp add: int_of_digits_def)
    with False show ?thesis
      by (subst str_nat.simps) (simp add: int_of_digits_def digit_char_digit)
  qed
qed

lemma takeWhile_digits: "list_all is_digit s \<Longrightarrow> takeWhile is_digit s = s"
  by (simp add: list_all_iff)

lemma py_int_digits:
  "s \<noteq> [] \<Longrightarrow> list_all is_digit s \<Longrightarrow> length s \<le> 4300 \<Longrightarrow> py_int s = Inr (int_of_digits s)"
  by (simp add: py_int_def takeWhile_digits)

lemma py_int_long:
  "list_all is_digit s \<Longrightarrow> 4300 < length s \<Longrightarrow>
   py_int s =
     Inl (ValueError (''Exceeds the limit (4300 digits) for integer string conversion: value has ''
            @ str_nat (length s) @ '' digits; use sys.set_int_max_str_digits() to increase the limit''))"
  by (simp add: py_int_def takeWhile_digits)

lemma py_int_str_nat: "length (str_nat n) \<le> 4300 \<Longrightarrow> py_int (str_nat n) = Inr (int n)"
  by (simp add: py_int_digits str_nat_digits int_of_digits_str_nat)

lemma str_nat_length_le: "0 < k \<Longrightarrow> n < 10 ^ k \<Longrightarrow> length (str_nat n) \<le> k"
proof (induction k arbitrary: n)
  case 0
  then show ?case by simp
next
  case (Suc k)
  show ?case
  proof (cases "n < 10")
    case True
    then show ?thesis by (subst str_nat.simps) simp
  next
    case False
    then have "0 < k"
      using Suc.prems by (cases k) simp_all
    moreover have "n div 10 < 10 ^ k"
      using Suc.prems by (simp add: less_mult_imp_div_less mult.commute)
    ultimately have "length (str_nat (n div 10)) \<le> k"
      by (rule Suc.IH)
    with False show ?thesis by (subst str_nat.simps) simp
  qed
qed

lemma findall_digits_run:
  assumes "ds \<noteq> []" "list_all is_digit ds" "\<not> is_digit c"
  shows "findall_digits (ds @ c # rest) = ds # findall_digits rest"
proof -
  obtain d ds' where ds: "ds = d # ds'" using assms(1) by (cases ds) auto
  have all: "\<And>x. x \<in> set ds' \<Longrightarrow> is_digit x" and d: "is_digit d"
    using assms(2) ds by (auto simp: list_all_iff)
  have tw: "takeWhile is_digit (ds' @ c # rest) = ds'"
    using all assms(3) by (simp add: takeWhile_append2)
  have dw: "dropWhile is_digit (ds' @ c # rest) = c # rest"
    using all assms(3) by (simp add: dropWhile_append2)
  show ?thesis
    using d assms(3) by (simp add: ds tw dw)
qed

lemma findall_digits_all:
  assumes "ds \<noteq> []" "list_all is_digit ds"
  shows "findall_digits ds = [ds]"
proof -
  obtain d ds' where ds: "ds = d # ds'" using assms(1) by (cases ds) auto
  have all: "\<forall>x \<in> set ds'. is_digit x" and d: "is_digit d"
    using assms(2) ds by (auto simp: list_all_iff)
  have tw: "takeWhile is_digit ds' = ds'" and dw: "dropWhile is_digit ds' = []"
    using all by simp_all
  show ?thesis using d by (simp add: ds tw dw)
qed

lemma list_all_takeWhile: "list_all P (takeWhile P xs)"
  by (induction xs) simp_all

lemma findall_digits_runs:
  "list_all (\<lambda>r. r \<noteq> [] \<and> list_all is_digit r) (findall_digits s)"
proof (induction s rule: findall_digits.induct)
  case 1
  show ?case by simp
next
  case (2 c cs)
  show ?case
  proof (cases "is_digit c")
    case True
    with 2 show ?thesis by (simp add: list_all_takeWhile)
  next
    case False
    with 2 show ?thesis by simp
  qed
qed

lemma extract_ints_runs:
  assumes "\<forall>r\<in>set (findall_digits s). length r \<le> 4300"
  shows "extract_ints_from_string s = Inr (map int_of_digits (findall_digits s))"
  unfolding extract_ints_from_string_def
proof (rule traverse_all_Inr)
  fix x assume x: "x \<in> set (findall_digits s)"
  then have "x \<noteq> [] \<and> list_all is_digit x"
    using findall_digits_runs [of s] by (simp add: list_all_iff)
  moreover have "length x \<le> 4300"
    using assms x by blast
  ultimately show "py_int x = Inr (int_of_digits x)"
    by (simp add: py_int_digits)
qed

lemma findall_digits_skip:
  "list_all (\<lambda>c. \<not> is_digit c) junk \<Longrightarrow> findall_digits (junk @ rest) = findall_digits rest"
  by (induction junk) simp_all

lemma findall_digits_then:
  assumes "ds \<noteq> []" and "list_all is_digit ds" and "list_all (\<lambda>c. \<not> is_digit c) junk"
    and "junk \<noteq> [] \<or> rest = []"
  shows "findall_digits (ds @ junk @ rest) = ds # findall_digits rest"
proof (cases junk)
  case Nil
  then show ?thesis using assms by (simp add: findall_digits_all)
next
  case (Cons c cs)
  then have "findall_digits (ds @ c # cs @ rest) = ds # findall_digits (cs @ rest)"
    using assms by (intro findall_digits_run) simp_all
  then show ?thesis
    using Cons assms(3) by (simp add: findall_digits_skip)
qed

lemma findall_join_sep:
  assumes "sep \<noteq> []" and "list_all (\<lambda>c. \<not> is_digit c) sep" and "list_all (\<lambda>c. \<not> is_digit c) post"
  shows "findall_digits (join sep (map str_nat ns) @ post) = map str_nat ns"
proof (induction ns rule: induct_list012)
  case 1
  show ?case using findall_digits_skip [OF assms(3), of "[]"] by simp
next
  case (2 n)
  show ?case
    using findall_digits_then [of "str_nat n" post "[]"] assms(3) by (simp add: str_nat_digits)
next
  case (3 n m ns)
  have "findall_digits (str_nat n @ sep @ (join sep (map str_nat (m # ns)) @ post))
        = str_nat n # findall_digits (join sep (map str_nat (m # ns)) @ post)"
    using assms(1,2) by (intro findall_digits_then) (simp_all add: str_nat_digits)
  with 3 show ?case by simp
qed

lemma comma_not_digit: "\<not> is_digit CHR '',''"
  by (simp add: is_digit_def)

lemma findall_join:
  "findall_digits (join '','' (map str_nat ns)) = map str_nat ns"
proof (induction ns rule: induct_list012)
  case 1
  show ?case by simp
next
  case (2 n)
  show ?case by (simp add: findall_digits_all str_nat_digits)
next
  case (3 n m ns)
  have "findall_digits (str_nat n @ CHR '','' # join '','' (map str_nat (m # ns)))
        = str_nat n # findall_digits (join '','' (map str_nat (m # ns)))"
    by (rule findall_digits_run) (simp_all add: str_nat_digits comma_not_digit)
  with 3 show ?case by simp
qed

lemma seats_loop_ints:
  "seats_loop (map JInt xs) acc = Inr (acc @ map JInt xs)"
  by (induction xs arbitrary: acc) simp_all

lemma seats_loop_strs:
  "\<forall>n\<in>set ns. length (str_nat n) \<le> 4300 \<Longrightarrow>
   seats_loop (map (\<lambda>n. JStr (str_nat n)) ns) acc = Inr (acc @ map (\<lambda>n. JInt (int n)) ns)"
  by (induction ns arbitrary: acc)
     (simp_all add: extract_ints_runs findall_digits_all str_nat_digits int_of_digits_str_nat)

lemma str_int_nonneg: "0 \<le> x \<Longrightarrow> str_int x = str_nat (nat x)"
  by (simp add: str_int_def)

lemma normalize_seats_nat_shapes:
  assumes "\<forall>n\<in>set ns. length (str_nat n) \<le> 4300"
  shows "normalize_seats (JStr (join '','' (map str_nat ns))) = Inr (map (\<lambda>n. JInt (int n)) ns)
   \<and> normalize_seats (JList (map (\<lambda>n. JStr (str_nat n)) ns)) = Inr (map (\<lambda>n. JInt (int n)) ns)"
proof -
  have runs: "\<forall>r\<in>set (findall_digits (join '','' (map str_nat ns))). length r \<le> 4300"
    using assms by (simp add: findall_join)
  show ?thesis
    using assms
    by (simp add: normalize_seats_def extract_ints_runs [OF runs] findall_join
        int_of_digits_str_nat seats_loop_strs)
qed

lemma extract_ints_between:
  assumes "\<forall>n\<in>set ns. length (str_nat n) \<le> 4300"
    and "sep \<noteq> []" and "list_all (\<lambda>c. \<not> is_digit c) (pre @ sep @ post)"
  shows "extract_ints_from_string (pre @ join sep (map str_nat ns) @ post) = Inr (map int ns)"
proof -
  have found: "findall_digits (pre @ join sep (map str_nat ns) @ post) = map str_nat ns"
    using assms(2,3) by (simp add: findall_digits_skip findall_join_sep)
  have runs: "\<forall>r\<in>set (findall_digits (pre @ join sep (map str_nat ns) @ post)). length r \<le> 4300"
    using assms(1) by (simp add: found)
  show ?thesis
    by (simp add: extract_ints_runs [OF runs] found int_of_digits_str_nat)
qed

text \<open>
  Claim C4, as amended. For every sequence of integers that are not negative and have at
  most 4300 decimal digits each (every integer below \<open>10 ^ 4300\<close> is such, by
  \<open>str_nat_length_le\<close>), \<open>normalize_seats\<close> returns the same sequence, in the same order
  and with its repetitions, whether the field is the decimal forms joined by commas, the
  list of the integers, or the list of their decimal forms. The extraction yields the
  numbers in their order whatever stands before, between and after them, as long as it
  holds no digit; on any string whose runs of digits have at most 4300 characters it
  yields the value of every run, from left to right.
\<close>

theorem normalize_seats_shapes:
  assumes "\<forall>x\<in>set xs. 0 \<le> x \<and> length (str_int x) \<le> 4300"
    and "sep \<noteq> [] \<and> list_all (\<lambda>c. \<not> is_digit c) (pre @ sep @ post)"
  shows "normalize_seats (JStr (join '','' (map str_int xs))) = Inr (map JInt xs)
       \<and> normalize_seats (JList (map JInt xs)) = Inr (map JInt xs)
       \<and> normalize_seats (JList (map (\<lambda>x. JStr (str_int x)) xs)) = Inr (map JInt xs)
       \<and> extract_ints_from_string (pre @ join sep (map str_int xs) @ post) = Inr xs
       \<and> ((\<forall>r\<in>set (findall_digits s). length r \<le> 4300) \<longrightarrow>
            extract_ints_from_string s = Inr (map int_of_digits (findall_digits s)))"
proof -
  define ns where "ns = map nat xs"
  have m1: "map str_int xs = map str_nat ns"
    using assms(1) by (simp add: ns_def str_int_nonneg)
  have m2: "map (\<lambda>x. JStr (str_int x)) xs = map (\<lambda>n. JStr (str_nat n)) ns"
    using assms(1) by (simp add: ns_def str_int_nonneg)
  have m3: "map (\<lambda>n. JInt (int n)) ns = map JInt xs"
    using assms(1) by (simp add: ns_def)
  have m4: "map int ns = xs"
    using assms(1) by (simp add: ns_def map_idI)
  have short: "\<forall>n\<in>set ns. length (str_nat n) \<le> 4300"
    using assms(1) by (auto simp: ns_def str_int_nonneg)
  have b: "normalize_seats (JList (map JInt xs)) = Inr (map JInt xs)"
    by (simp add: normalize_seats_def seats_loop_ints)
  have c: "extract_ints_from_string (pre @ join sep (map str_nat ns) @ post) = Inr (map int ns)"
    using short assms(2) by (intro extract_ints_between) simp_all
  have d: "(\<forall>r\<in>set (findall_digits s). length r \<le> 4300) \<longrightarrow>
            extract_ints_from_string s = Inr (map int_of_digits (findall_digits s))"
    using extract_ints_runs [of s] by blast
  show ?thesis
    using normalize_seats_nat_shapes [OF short] b c d
    by (simp only: m1 m2 m3 m4 simp_thms)
qed

theorem normalize_seats_shapes_witness:
  "normalize_seats (JStr ''12,45'') = Inr [JInt 12, JInt 45]
   \<and> normalize_seats (JList [JInt 12, JInt 45]) = Inr [JInt 12, JInt 45]
   \<and> normalize_seats (JList [JStr ''12'', JStr ''45'']) = Inr [JInt 12, JInt 45]
   \<and> extract_ints_from_string ''seats 12 and 45.'' = Inr [12, 45]
   \<and> extract_ints_from_string ''7, 7;007'' = Inr [7, 7, 7]"
proof -
  have s12: "str_int 12 = ''12''" and s45: "str_int 45 = ''45''"
    by code_simp+
  have short: "\<forall>x\<in>set [12, 45 :: int]. 0 \<le> x \<and> length (str_int x) \<le> 4300"
    by (simp add: s12 s45)
  have between: "'' and '' \<noteq> [] \<and> list_all (\<lambda>c. \<not> is_digit c) (''seats '' @ '' and '' @ ''.'')"
    by (simp add: is_digit_def)
  have runs: "findall_digits ''7, 7;007'' = [''7'', ''7'', ''007'']"
    by code_simp
  have numbers: "map int_of_digits [''7'', ''7'', ''007''] = [7, 7, 7]"
    by code_simp
  have "(\<forall>r\<in>set (findall_digits ''7, 7;007''). length r \<le> 4300) \<longrightarrow>
      extract_ints_from_string ''7, 7;007'' = Inr (map int_of_digits (findall_digits ''7, 7;007''))"
    using normalize_seats_shapes [OF short between, of "''7, 7;007''"] by blast
  then have repeated: "extract_ints_from_string ''7, 7;007'' = Inr [7, 7, 7]"
    unfolding runs numbers by simp
  have "normalize_seats (JStr (join '','' (map str_int [12, 45]))) = Inr (map JInt [12, 45])
      \<and> normalize_seats (JList (map JInt [12, 45])) = Inr (map JInt [12, 45])
      \<and> normalize_seats (JList (map (\<lambda>x. JStr (str_int x)) [12, 45])) = Inr (map JInt [12, 45])
      \<and> extract_ints_from_string (''seats '' @ join '' and '' (map str_int [12, 45]) @ ''.'')
          = Inr [12, 45]"
    using normalize_seats_shapes [OF short between, of "[]"] by blast
  then show ?thesis
    using repeated by (simp add: s12 s45)
qed

text \<open>
  Claim C4, as stated, fails on the positive integer written with 4301 ones: on its decimal
  form \<open>int\<close> raises \<open>ValueError\<close>, so \<open>normalize_seats\<close> returns no sequence.
\<close>

theorem normalize_seats_long_run_counterexample:
  "normalize_seats (JStr (replicate 4301 CHR ''1'')) =
     Inl (ValueError (''Exceeds the limit (4300 digits) for integer string conversion: ''
            @ ''value has 4301 digits; use sys.set_int_max_str_digits() to increase the limit''))"
proof -
  define ones where "ones = replicate 4301 CHR ''1''"
  have run: "ones \<noteq> [] \<and> list_all is_digit ones \<and> length ones = 4301"
    by (simp add: ones_def list_all_iff is_digit_def)
  have found: "findall_digits ones = [ones]"
    using run by (simp add: findall_digits_all)
  have count: "str_nat 4301 = ''4301''"
    by code_simp
  have "py_int ones =
     Inl (ValueError (''Exceeds the limit (4300 digits) for integer string conversion: value has ''
            @ str_nat (length ones) @ '' digits; use sys.set_int_max_str_digits() to increase the limit''))"
    using run by (intro py_int_long) simp_all
  then have "normalize_seats (JStr ones) =
     Inl (ValueError (''Exceeds the limit (4300 digits) for integer string conversion: ''
            @ ''value has 4301 digits; use sys.set_int_max_str_digits() to increase the limit''))"
    using run by (simp add: normalize_seats_def extract_ints_from_string_def found count)
  then show ?thesis
    by (simp only: ones_def)
qed

lemma only_digits_str: "only_digits (JStr t) = Inr (concat (findall_digits t))"
  by (simp add: only_digits_def)

lemma traverse_only_digits_strs:
  "traverse only_digits (map JStr ps) = Inr (map (\<lambda>p. concat (findall_digits p)) ps)"
  by (induction ps) (simp_all add: only_digits_str)

lemma normalize_mobile_str:
  "normalize_mobile_to_list (JStr s) =
     Inr (filter (\<lambda>m. m \<noteq> [])
       (map (\<lambda>p. concat (findall_digits p))
         (if CHR '','' \<in> set s then map strip (split CHR '','' s) else [strip s])))"
  by (simp add: normalize_mobile_to_list_def Let_def traverse_only_digits_strs del: map_map)

text \<open>
  Claim C3. On the mobile field \<open>[9876543210]\<close>, a list holding the number as an integer,
  \<open>normalize_mobile_to_list\<close> does not return a list: \<open>only_digits\<close> hands the integer to
  \<open>re.findall\<close>, which raises \<open>TypeError\<close>. On the same value \<open>normalize_seats\<close> returns.
\<close>

theorem normalize_mobile_to_list_raises:
  "normalize_mobile_to_list (JList [JInt 9876543210]) =
     Inl (TypeError ''expected string or bytes-like object'')
   \<and> (\<exists>r. normalize_seats (JList [JInt 9876543210]) = Inr r)"
  by (simp add: normalize_mobile_to_list_def only_digits_def normalize_seats_def)

subsection \<open>Ledger routes\<close>

lemma get_sheet_nonempty:
  "open_sheet_raises env = None \<Longrightarrow> sheet w \<noteq> [] \<Longrightarrow> get_sheet env w = Inr w"
  by (simp add: get_sheet_def)

lemma clear_route_open:
  "\<not> (is_set (CLEAR_TOKEN env) \<and> header \<noteq> CLEAR_TOKEN env) \<Longrightarrow>
   clear_sheet_route env header w =
     (case clear_google_sheet_values env w of
        (Inr message, w1) \<Rightarrow> (\<lparr>status = 200, body = OkMessage True message\<rparr>, w1)
      | (Inl e, w1) \<Rightarrow> (\<lparr>status = 200, body = OkMessage False (str_exn e)\<rparr>, w1))"
  by (auto simp add: clear_sheet_route_def)

lemma clear_route_open_status:
  "\<not> (is_set (CLEAR_TOKEN env) \<and> header \<noteq> CLEAR_TOKEN env) \<Longrightarrow>
   status (fst (clear_sheet_route env header w)) = 200"
  by (simp add: clear_route_open split: prod.split sum.split)

lemma clear_route_closed:
  "is_set (CLEAR_TOKEN env) \<and> header \<noteq> CLEAR_TOKEN env \<Longrightarrow>
   clear_sheet_route env header w = (\<lparr>status = 401, body = OkMessage False ''Unauthorized''\<rparr>, w)"
  by (simp add: clear_sheet_route_def)

lemma clear_values_healthy:
  "open_sheet_raises env = None \<Longrightarrow> batch_clear_raises env = None \<Longrightarrow> sheet w \<noteq> [] \<Longrightarrow>
   clear_google_sheet_values env w = (Inr ''Sheet cleared'', w\<lparr>sheet := take 1 (sheet w)\<rparr>)"
  by (simp add: clear_google_sheet_values_def get_sheet_nonempty)

text \<open>
  Claim C10. When \<open>CLEAR_TOKEN\<close> is unset or empty, the clear route does the same for every
  value of the header as for a request without it: it never answers 401 and goes on to
  \<open>clear_google_sheet_values\<close>, which, when the spreadsheet service answers, leaves the
  first row only. The route answers 401 exactly when a token is configured and the header
  differs from it.
\<close>

theorem clear_sheet_without_token:
  "(\<not> is_set (CLEAR_TOKEN env) \<longrightarrow>
      clear_sheet_route env header w = clear_sheet_route env None w
      \<and> status (fst (clear_sheet_route env header w)) = 200
      \<and> (open_sheet_raises env = None \<and> batch_clear_raises env = None \<and> sheet w \<noteq> [] \<longrightarrow>
           clear_sheet_route env header w =
             (\<lparr>status = 200, body = OkMessage True ''Sheet cleared''\<rparr>,
              w\<lparr>sheet := take 1 (sheet w)\<rparr>)))
   \<and> ((status (fst (clear_sheet_route env header w)) = 401)
        = (is_set (CLEAR_TOKEN env) \<and> header \<noteq> CLEAR_TOKEN env))"
proof (cases "is_set (CLEAR_TOKEN env)")
  case False
  then have open_h: "\<not> (is_set (CLEAR_TOKEN env) \<and> header \<noteq> CLEAR_TOKEN env)"
    and open_n: "\<not> (is_set (CLEAR_TOKEN env) \<and> None \<noteq> CLEAR_TOKEN env)" by simp_all
  have same: "clear_sheet_route env header w = clear_sheet_route env None w"
    by (simp only: clear_route_open [OF open_h] clear_route_open [OF open_n])
  have st: "status (fst (clear_sheet_route env header w)) = 200"
    by (rule clear_route_open_status [OF open_h])
  have healthy: "open_sheet_raises env = None \<and> batch_clear_raises env = None \<and> sheet w \<noteq> [] \<longrightarrow>
      clear_sheet_route env header w =
        (\<lparr>status = 200, body = OkMessage True ''Sheet cleared''\<rparr>, w\<lparr>sheet := take 1 (sheet w)\<rparr>)"
    by (simp add: clear_route_open [OF open_h] clear_values_healthy)
  show ?thesis using False same st healthy by simp
next
  case True
  show ?thesis
  proof (cases "header \<noteq> CLEAR_TOKEN env")
    case True
    with \<open>is_set (CLEAR_TOKEN env)\<close> show ?thesis by (simp add: clear_route_closed)
  next
    case False
    then have "status (fst (clear_sheet_route env header w)) = 200"
      by (intro clear_route_open_status) simp
    with False \<open>is_set (CLEAR_TOKEN env)\<close> show ?thesis by simp
  qed
qed

theorem clear_sheet_without_token_witness:
  "clear_sheet_route example_env (Some ''anything'')
     \<lparr>sheet = [[''Timestamp'', ''User Code'', ''Name'', ''Mobile'', ''Selected Seats''],
               [''2026-01-01 10:00:00'', ''A1'', ''Asha'', ''9876543210'', ''10'']],
      printed = []\<rparr>
   = (\<lparr>status = 200, body = OkMessage True ''Sheet cleared''\<rparr>,
      \<lparr>sheet = [[''Timestamp'', ''User Code'', ''Name'', ''Mobile'', ''Selected Seats'']],
       printed = []\<rparr>)
   \<and> status (fst (clear_sheet_route (example_env\<lparr>CLEAR_TOKEN := Some ''s3cret''\<rparr>) (Some ''anything'')
        header_world)) = 401
   \<and> status (fst (clear_sheet_route (example_env\<lparr>CLEAR_TOKEN := Some ''''\<rparr>) None header_world)) = 200"
proof -
  let ?w = "\<lparr>sheet = [[''Timestamp'', ''User Code'', ''Name'', ''Mobile'', ''Selected Seats''],
               [''2026-01-01 10:00:00'', ''A1'', ''Asha'', ''9876543210'', ''10'']],
      printed = []\<rparr>"
  let ?secret = "example_env\<lparr>CLEAR_TOKEN := Some ''s3cret''\<rparr>"
  let ?empty = "example_env\<lparr>CLEAR_TOKEN := Some []\<rparr>"
  have unset: "\<not> is_set (CLEAR_TOKEN example_env)"
    by (simp add: example_env_def is_set_def)
  have healthy: "open_sheet_raises example_env = None \<and> batch_clear_raises example_env = None
      \<and> sheet ?w \<noteq> []"
    by (simp add: example_env_def)
  have cleared: "clear_sheet_route example_env (Some ''anything'') ?w =
      (\<lparr>status = 200, body = OkMessage True ''Sheet cleared''\<rparr>, ?w\<lparr>sheet := take 1 (sheet ?w)\<rparr>)"
    using clear_sheet_without_token [of example_env "Some ''anything''" ?w] unset healthy by blast
  have differs: "is_set (CLEAR_TOKEN ?secret) \<and> Some ''anything'' \<noteq> CLEAR_TOKEN ?secret"
    by (simp add: is_set_def)
  have refused: "status (fst (clear_sheet_route ?secret (Some ''anything'') header_world)) = 401"
    using clear_sheet_without_token [of ?secret "Some ''anything''" header_world] differs by blast
  have empty: "\<not> is_set (CLEAR_TOKEN ?empty)"
    by (simp add: is_set_def)
  have passed: "status (fst (clear_sheet_route ?empty None header_world)) = 200"
    using clear_sheet_without_token [of ?empty None header_world] empty by blast
  show ?thesis using cleared refused passed by simp
qed

subsection \<open>Occupied seats\<close>

lemma traverse_map: "traverse f (map g xs) = traverse (\<lambda>x. f (g x)) xs"
  by (induction xs) (simp_all split: sum.split)

lemma traverse_py_int_values:
  "traverse py_int xs = Inr ys \<Longrightarrow> ys = map int_of_digits xs"
proof (induction xs arbitrary: ys)
  case Nil
  then show ?case by simp
next
  case (Cons x xs)
  then show ?case
    by (auto simp: py_int_def Let_def split: if_splits sum.splits)
qed

lemma parse_booked_fragments:
  "parse_booked cells =
     traverse py_int (filter isdigit (map strip (concat (map (split CHR '','') cells))))"
  by (simp add: parse_booked_def filter_map traverse_map o_def)

lemma traverse_py_int_digits:
  "\<forall>s\<in>set xs. s \<noteq> [] \<and> list_all is_digit s \<and> length s \<le> 4300 \<Longrightarrow>
   traverse py_int xs = Inr (map int_of_digits xs)"
  by (rule traverse_all_Inr) (simp add: py_int_digits)

lemma booked_seats_status: "status (fst (booked_seats env w)) = 200"
  by (simp add: booked_seats_def split: sum.split option.split)

text \<open>
  Where the route of the occupied seats does what is expected of it: a failure to open the
  sheet or to read the column gives the empty list with the text of the exception, and a
  column whose fragments that pass \<open>isdigit\<close> are made of at most 4300 ASCII digits gives
  the value of every such fragment.
\<close>

lemma booked_seats_outcomes:
  fixes env :: env and w :: world
  defines "fragments cells \<equiv> filter isdigit (map strip (concat (map (split CHR '','') cells)))"
  shows "(\<forall>e. get_sheet env w = Inl e \<longrightarrow>
          booked_seats env w = (\<lparr>status = 200, body = BookedError [] (str_exn e)\<rparr>, w))
     \<and> (\<forall>ws e. get_sheet env w = Inr ws \<and> col_values_raises env = Some e \<longrightarrow>
          booked_seats env w = (\<lparr>status = 200, body = BookedError [] (str_exn e)\<rparr>, ws))
     \<and> (\<forall>ws. get_sheet env w = Inr ws \<and> col_values_raises env = None
           \<and> (\<forall>s\<in>set (fragments (drop 1 (col_values 5 (sheet ws)))).
                 list_all is_digit s \<and> length s \<le> 4300) \<longrightarrow>
          booked_seats env w =
            (\<lparr>status = 200,
              body = Booked (map int_of_digits (fragments (drop 1 (col_values 5 (sheet ws)))))\<rparr>, ws))
     \<and> (\<forall>ws booked. get_sheet env w = Inr ws
           \<and> fst (booked_seats env w) = \<lparr>status = 200, body = Booked booked\<rparr> \<longrightarrow>
          booked = map int_of_digits (fragments (drop 1 (col_values 5 (sheet ws)))))"
proof -
  have a: "\<forall>e. get_sheet env w = Inl e \<longrightarrow>
          booked_seats env w = (\<lparr>status = 200, body = BookedError [] (str_exn e)\<rparr>, w)"
    by (simp add: booked_seats_def)
  have b: "\<forall>ws e. get_sheet env w = Inr ws \<and> col_values_raises env = Some e \<longrightarrow>
          booked_seats env w = (\<lparr>status = 200, body = BookedError [] (str_exn e)\<rparr>, ws)"
    by (simp add: booked_seats_def)
  have c: "\<forall>ws. get_sheet env w = Inr ws \<and> col_values_raises env = None
           \<and> (\<forall>s\<in>set (fragments (drop 1 (col_values 5 (sheet ws)))).
                 list_all is_digit s \<and> length s \<le> 4300) \<longrightarrow>
          booked_seats env w =
            (\<lparr>status = 200,
              body = Booked (map int_of_digits (fragments (drop 1 (col_values 5 (sheet ws)))))\<rparr>, ws)"
  proof (intro allI impI, elim conjE)
    fix ws
    assume g: "get_sheet env w = Inr ws" and cv: "col_values_raises env = None"
      and d: "\<forall>s\<in>set (fragments (drop 1 (col_values 5 (sheet ws)))).
                list_all is_digit s \<and> length s \<le> 4300"
    have "\<forall>s\<in>set (fragments (drop 1 (col_values 5 (sheet ws)))).
            s \<noteq> [] \<and> list_all is_digit s \<and> length s \<le> 4300"
      using d by (auto simp: fragments_def isdigit_def)
    then have "parse_booked (drop 1 (col_values 5 (sheet ws)))
        = Inr (map int_of_digits (fragments (drop 1 (col_values 5 (sheet ws)))))"
      unfolding parse_booked_fragments fragments_def by (rule traverse_py_int_digits)
    then show "booked_seats env w =
            (\<lparr>status = 200,
              body = Booked (map int_of_digits (fragments (drop 1 (col_values 5 (sheet ws)))))\<rparr>, ws)"
      using g cv by (simp add: booked_seats_def)
  qed
  have d: "\<forall>ws booked. get_sheet env w = Inr ws
           \<and> fst (booked_seats env w) = \<lparr>status = 200, body = Booked booked\<rparr> \<longrightarrow>
          booked = map int_of_digits (fragments (drop 1 (col_values 5 (sheet ws))))"
  proof (intro allI impI, elim conjE)
    fix ws booked
    assume g: "get_sheet env w = Inr ws"
      and r: "fst (booked_seats env w) = \<lparr>status = 200, body = Booked booked\<rparr>"
    from g r have "parse_booked (drop 1 (col_values 5 (sheet ws))) = Inr booked"
      by (simp add: booked_seats_def split: option.splits sum.splits)
    then show "booked = map int_of_digits (fragments (drop 1 (col_values 5 (sheet ws))))"
      unfolding parse_booked_fragments fragments_def by (rule traverse_py_int_values)
  qed
  show ?thesis using a b c d by blast
qed

text \<open>
  Claim C9. The status of the answer is 200 on every path, and the cells \<open>5\<close>, \<open>7,8\<close> and
  the empty cell give 5, 7, 8; blanks and fragments that are not numbers are skipped. The
  list is lost, though, as soon as one cell holds a superscript digit: the cell made of the
  character U+00B2 passes \<open>isdigit\<close> and is refused by \<open>int\<close>, and the route answers with
  the empty list and the text of the exception, although the sheet was read and holds the
  seats 5, 7 and 8.
\<close>

theorem booked_seats_superscript_digit:
  "status (fst (booked_seats env w)) = 200
   \<and> booked_seats example_env
       \<lparr>sheet = [[''Timestamp'', ''User Code'', ''Name'', ''Mobile'', ''Selected Seats''],
                 [''t1'', ''A1'', ''Asha'', ''9876543210'', ''5''],
                 [''t2'', ''A2'', ''Ravi'', ''9988776655'', ''7,8''],
                 [''t3'', ''A3'', ''Mary'', ''9000000001'', []]],
        printed = []\<rparr>
     = (\<lparr>status = 200, body = Booked [5, 7, 8]\<rparr>,
        \<lparr>sheet = [[''Timestamp'', ''User Code'', ''Name'', ''Mobile'', ''Selected Seats''],
                 [''t1'', ''A1'', ''Asha'', ''9876543210'', ''5''],
                 [''t2'', ''A2'', ''Ravi'', ''9988776655'', ''7,8''],
                 [''t3'', ''A3'', ''Mary'', ''9000000001'', []]],
        printed = []\<rparr>)
   \<and> parse_booked ['' 5 '', ''7 , 8,'', ''n/a'', ''x9''] = Inr [5, 7, 8]
   \<and> isdigit [CHR 0xB2]
   \<and> py_int [CHR 0xB2] =
       Inl (ValueError (''invalid literal for int() with base 10: '' @ [CHR 0x27, CHR 0xB2, CHR 0x27]))
   \<and> get_sheet example_env
       \<lparr>sheet = [[''Timestamp'', ''User Code'', ''Name'', ''Mobile'', ''Selected Seats''],
                 [''t1'', ''A1'', ''Asha'', ''9876543210'', ''5''],
                 [''t2'', ''A2'', ''Ravi'', ''9988776655'', ''7,8''],
                 [''t3'', ''A3'', ''Mary'', ''9000000001'', [CHR 0xB2]]],
        printed = []\<rparr>
     = Inr \<lparr>sheet = [[''Timestamp'', ''User Code'', ''Name'', ''Mobile'', ''Selected Seats''],
                 [''t1'', ''A1'', ''Asha'', ''9876543210'', ''5''],
                 [''t2'', ''A2'', ''Ravi'', ''9988776655'', ''7,8''],
                 [''t3'', ''A3'', ''Mary'', ''9000000001'', [CHR 0xB2]]],
        printed = []\<rparr>
   \<and> col_values_raises example_env = None
   \<and> booked_seats example_env
       \<lparr>sheet = [[''Timestamp'', ''User Code'', ''Name'', ''Mobile'', ''Selected Seats''],
                 [''t1'', ''A1'', ''Asha'', ''9876543210'', ''5''],
                 [''t2'', ''A2'', ''Ravi'', ''9988776655'', ''7,8''],
                 [''t3'', ''A3'', ''Mary'', ''9000000001'', [CHR 0xB2]]],
        printed = []\<rparr>
     = (\<lparr>status = 200,
         body = BookedError []
           (''invalid literal for int() with base 10: '' @ [CHR 0x27, CHR 0xB2, CHR 0x27])\<rparr>,
        \<lparr>sheet = [[''Timestamp'', ''User Code'', ''Name'', ''Mobile'', ''Selected Seats''],
                 [''t1'', ''A1'', ''Asha'', ''9876543210'', ''5''],
                 [''t2'', ''A2'', ''Ravi'', ''9988776655'', ''7,8''],
                 [''t3'', ''A3'', ''Mary'', ''9000000001'', [CHR 0xB2]]],
        printed = []\<rparr>)"
proof -
  have everywhere: "status (fst (booked_seats env w)) = 200"
    by (rule booked_seats_status)
  have healthy: "booked_seats example_env
       \<lparr>sheet = [[''Timestamp'', ''User Code'', ''Name'', ''Mobile'', ''Selected Seats''],
                 [''t1'', ''A1'', ''Asha'', ''9876543210'', ''5''],
                 [''t2'', ''A2'', ''Ravi'', ''9988776655'', ''7,8''],
                 [''t3'', ''A3'', ''Mary'', ''9000000001'', []]],
        printed = []\<rparr>
     = (\<lparr>status = 200, body = Booked [5, 7, 8]\<rparr>,
        \<lparr>sheet = [[''Timestamp'', ''User Code'', ''Name'', ''Mobile'', ''Selected Seats''],
                 [''t1'', ''A1'', ''Asha'', ''9876543210'', ''5''],
                 [''t2'', ''A2'', ''Ravi'', ''9988776655'', ''7,8''],
                 [''t3'', ''A3'', ''Mary'', ''9000000001'', []]],
        printed = []\<rparr>)"
    by code_simp
  have skipped: "parse_booked ['' 5 '', ''7 , 8,'', ''n/a'', ''x9''] = Inr [5, 7, 8]"
    by code_simp
  have passes: "isdigit [CHR 0xB2]"
    by code_simp
  have refused: "py_int [CHR 0xB2] =
       Inl (ValueError (''invalid literal for int() with base 10: '' @ [CHR 0x27, CHR 0xB2, CHR 0x27]))"
    by code_simp
  have opened: "get_sheet example_env
       \<lparr>sheet = [[''Timestamp'', ''User Code'', ''Name'', ''Mobile'', ''Selected Seats''],
                 [''t1'', ''A1'', ''Asha'', ''9876543210'', ''5''],
                 [''t2'', ''A2'', ''Ravi'', ''9988776655'', ''7,8''],
                 [''t3'', ''A3'', ''Mary'', ''9000000001'', [CHR 0xB2]]],
        printed = []\<rparr>
     = Inr \<lparr>sheet = [[''Timestamp'', ''User Code'', ''Name'', ''Mobile'', ''Selected Seats''],
                 [''t1'', ''A1'', ''Asha'', ''9876543210'', ''5''],
                 [''t2'', ''A2'', ''Ravi'', ''9988776655'', ''7,8''],
                 [''t3'', ''A3'', ''Mary'', ''9000000001'', [CHR 0xB2]]],
        printed = []\<rparr>"
    by code_simp
  have reads: "col_values_raises example_env = None"
    by code_simp
  have lost: "booked_seats example_env
       \<lparr>sheet = [[''Timestamp'', ''User Code'', ''Name'', ''Mobile'', ''Selected Seats''],
                 [''t1'', ''A1'', ''Asha'', ''9876543210'', ''5''],
                 [''t2'', ''A2'', ''Ravi'', ''9988776655'', ''7,8''],
                 [''t3'', ''A3'', ''Mary'', ''9000000001'', [CHR 0xB2]]],
        printed = []\<rparr>
     = (\<lparr>status = 200,
         body = BookedError []
           (''invalid literal for int() with base 10: '' @ [CHR 0x27, CHR 0xB2, CHR 0x27])\<rparr>,
        \<lparr>sheet = [[''Timestamp'', ''User Code'', ''Name'', ''Mobile'', ''Selected Seats''],
                 [''t1'', ''A1'', ''Asha'', ''9876543210'', ''5''],
                 [''t2'', ''A2'', ''Ravi'', ''9988776655'', ''7,8''],
                 [''t3'', ''A3'', ''Mary'', ''9000000001'', [CHR 0xB2]]],
        printed = []\<rparr>)"
    by code_simp
  show ?thesis
    using everywhere healthy skipped passes refused opened reads lost by blast
qed

subsection \<open>Notification and submission\<close>

lemma sheet_print: "sheet (print entries w) = sheet w"
  by (simp add: print_def)

lemma send_try_sheet: "sheet (snd (send_try env to_number name seat event_time w)) = sheet w"
  by (simp add: send_try_def Let_def sheet_print split: prod.split sum.split)

lemma send_result:
  "\<exists>r w2. send_whatsapp_template_concert env to_number name seat event_time w = (Inr r, w2)
     \<and> sheet w2 = sheet w"
proof (cases "is_set (TWILIO_SID env) \<and> is_set (TWILIO_AUTH env)
             \<and> is_set (TWILIO_WHATSAPP_FROM env) \<and> is_set (TWILIO_CONTENT_SID_CONCERT env)")
  case False
  then show ?thesis
    by (simp add: send_whatsapp_template_concert_def sheet_print)
next
  case True
  obtain x w1 where t: "send_try env to_number name seat event_time w = (x, w1)"
    by (cases "send_try env to_number name seat event_time w")
  then have "sheet w1 = sheet w"
    using send_try_sheet [of env to_number name seat event_time w] by simp
  then show ?thesis
    using True t by (cases x) (simp_all add: send_whatsapp_template_concert_def sheet_print)
qed

lemma send_missing_credentials:
  "\<not> (is_set (TWILIO_SID env) \<and> is_set (TWILIO_AUTH env)
       \<and> is_set (TWILIO_WHATSAPP_FROM env) \<and> is_set (TWILIO_CONTENT_SID_CONCERT env)) \<Longrightarrow>
   fst (send_whatsapp_template_concert env to_number name seat event_time w) = Inr None"
  by (simp add: send_whatsapp_template_concert_def)

lemma send_try_client_raises:
  "\<forall>p. \<exists>e. messages_create env p = Inl e \<Longrightarrow>
   \<exists>e w1. send_try env to_number name seat event_time w = (Inl e, w1)"
proof -
  assume a: "\<forall>p. \<exists>e. messages_create env p = Inl e"
  obtain t ws where f: "format_wa_to to_number = (t, ws)"
    by (cases "format_wa_to to_number")
  let ?p = "\<lparr>from_ = TWILIO_WHATSAPP_FROM env, to = t,
               content_sid = TWILIO_CONTENT_SID_CONCERT env,
               content_variables = [(''1'', name), (''2'', py_str seat), (''3'', event_time)]\<rparr>"
  from a obtain e where "messages_create env ?p = Inl e" by blast
  then show ?thesis
    by (simp add: send_try_def f Let_def)
qed

lemma send_client_raises:
  "\<forall>p. \<exists>e. messages_create env p = Inl e \<Longrightarrow>
   fst (send_whatsapp_template_concert env to_number name seat event_time w) = Inr None"
proof -
  assume "\<forall>p. \<exists>e. messages_create env p = Inl e"
  then obtain e w1 where "send_try env to_number name seat event_time w = (Inl e, w1)"
    using send_try_client_raises by blast
  then show ?thesis
    by (simp add: send_whatsapp_template_concert_def)
qed

lemma append_row_Inr:
  "append_row env w row = Inr w1 \<Longrightarrow> sheet w1 = sheet w @ [row] \<and> printed w1 = printed w"
  by (auto simp: append_row_def split: option.splits)

lemma append_row_sim:
  assumes "append_row_raises env' = append_row_raises env" and "sheet w' = sheet w"
  shows "(\<forall>e. append_row env w row = Inl e \<longrightarrow> append_row env' w' row = Inl e)
       \<and> (\<forall>w1. append_row env w row = Inr w1 \<longrightarrow>
             (\<exists>w1'. append_row env' w' row = Inr w1' \<and> sheet w1' = sheet w1))"
  using assms by (auto simp: append_row_def split: option.splits)

lemma append_loop_sim:
  assumes same: "append_row_raises env' = append_row_raises env"
  shows "sheet w' = sheet w \<Longrightarrow>
     fst (append_loop env' ts et rows conf w') = fst (append_loop env ts et rows conf w)
     \<and> sheet (snd (append_loop env' ts et rows conf w')) = sheet (snd (append_loop env ts et rows conf w))"
proof (induction rows arbitrary: conf w w')
  case Nil
  then show ?case by simp
next
  case (Cons row rows)
  obtain uc nm mb seat where row: "row = (uc, nm, mb, seat)"
    by (cases row) auto
  let ?r = "[ts, uc, nm, mb, py_str seat]"
  show ?case
  proof (cases "append_row env w ?r")
    case (Inl e)
    then have "append_row env' w' ?r = Inl e"
      using append_row_sim [OF same Cons.prems, of ?r] by simp
    with Inl show ?thesis by (simp add: row Cons.prems)
  next
    case (Inr w1)
    then obtain w1' where a': "append_row env' w' ?r = Inr w1'" and s1: "sheet w1' = sheet w1"
      using append_row_sim [OF same Cons.prems, of ?r] by blast
    obtain r w2 where n: "send_whatsapp_template_concert env mb nm seat et w1 = (Inr r, w2)"
      and s2: "sheet w2 = sheet w1"
      using send_result [of env mb nm seat et w1] by blast
    obtain r' w2' where n': "send_whatsapp_template_concert env' mb nm seat et w1' = (Inr r', w2')"
      and s2': "sheet w2' = sheet w1'"
      using send_result [of env' mb nm seat et w1'] by blast
    have "sheet w2' = sheet w2" using s1 s2 s2' by simp
    from Cons.IH [OF this, of "conf @ [seat]"] show ?thesis
      by (simp add: row Inr a' n n')
  qed
qed

lemma booking_loop_sim:
  assumes same: "append_row_raises env' = append_row_raises env"
    and et: "event_time_of env' = event_time_of env"
  shows "sheet w' = sheet w \<Longrightarrow>
     fst (booking_loop env' ts bs conf w') = fst (booking_loop env ts bs conf w)
     \<and> sheet (snd (booking_loop env' ts bs conf w')) = sheet (snd (booking_loop env ts bs conf w))"
proof (induction bs arbitrary: conf w w')
  case Nil
  then show ?case by simp
next
  case (Cons b bs)
  show ?case
  proof (cases "booking_rows b")
    case (Raised e)
    then show ?thesis by (simp add: Cons.prems)
  next
    case (Returned r)
    then show ?thesis by (simp add: Cons.prems)
  next
    case (Continue rows)
    obtain f w1 where l: "append_loop env ts (event_time_of env) rows conf w = (f, w1)"
      by (cases "append_loop env ts (event_time_of env) rows conf w")
    obtain f' w1' where l': "append_loop env' ts (event_time_of env) rows conf w' = (f', w1')"
      by (cases "append_loop env' ts (event_time_of env) rows conf w'")
    have ff: "f' = f" and ss: "sheet w1' = sheet w1"
      using append_loop_sim [OF same Cons.prems, of ts "event_time_of env" rows conf] l l' by simp_all
    show ?thesis
    proof (cases f)
      case (Continue conf')
      with Cons.IH [OF ss, of conf'] show ?thesis
        by (simp add: \<open>booking_rows b = Continue rows\<close> et l l' ff)
    next
      case (Raised e)
      then show ?thesis
        by (simp add: \<open>booking_rows b = Continue rows\<close> et l l' ff ss)
    next
      case (Returned r)
      then show ?thesis
        by (simp add: \<open>booking_rows b = Continue rows\<close> et l l' ff ss)
    qed
  qed
qed

lemma get_sheet_sim:
  assumes "append_row_raises env' = append_row_raises env"
    and "open_sheet_raises env' = open_sheet_raises env"
  shows "get_sheet env' w = get_sheet env w"
  using assms by (simp add: get_sheet_def append_row_def split: option.split)

lemma submit_sim:
  assumes same: "append_row_raises env' = append_row_raises env"
    and opn: "open_sheet_raises env' = open_sheet_raises env"
    and et: "event_time_of env' = event_time_of env"
    and nw: "now env' = now env"
  shows "fst (submit env' request_json w) = fst (submit env request_json w)
     \<and> sheet (snd (submit env' request_json w)) = sheet (snd (submit env request_json w))"
proof (cases "get_sheet env w")
  case (Inl e)
  then show ?thesis
    by (simp add: submit_def get_sheet_sim [OF same opn])
next
  case (Inr ws)
  show ?thesis
  proof (cases "py_iter (bookings_of request_json)")
    case (Inl e)
    then show ?thesis
      by (simp add: submit_def get_sheet_sim [OF same opn] Inr)
  next
    case bs: (Inr bs)
    obtain f w1 where l: "booking_loop env (now env) bs [] ws = (f, w1)"
      by (cases "booking_loop env (now env) bs [] ws")
    obtain f' w1' where l': "booking_loop env' (now env) bs [] ws = (f', w1')"
      by (cases "booking_loop env' (now env) bs [] ws")
    have "f' = f" and "sheet w1' = sheet w1"
      using booking_loop_sim [OF same et, of ws ws "now env" bs "[]"] l l' by simp_all
    then show ?thesis
      by (simp add: submit_def get_sheet_sim [OF same opn] Inr bs nw l l')
  qed
qed

text \<open>
  Claim C6. \<open>send_whatsapp_template_concert\<close> never raises and never touches the sheet;
  it returns \<open>None\<close> when one of the four variables is missing and when the messaging
  client raises. The response of \<open>submit\<close> and the sheet it leaves are the same for every
  setting of the messaging variables and every behaviour of the messaging client: a
  booking that is confirmed with a working notification is confirmed, with the same rows,
  when the notification fails.
\<close>

theorem notification_never_fails_booking:
  fixes env :: env
    and sid auth sender template :: "string option"
    and client :: "payload \<Rightarrow> exn + string"
  defines "creds \<equiv> is_set (TWILIO_SID env) \<and> is_set (TWILIO_AUTH env)
             \<and> is_set (TWILIO_WHATSAPP_FROM env) \<and> is_set (TWILIO_CONTENT_SID_CONCERT env)"
  defines "other \<equiv> env\<lparr>TWILIO_SID := sid, TWILIO_AUTH := auth, TWILIO_WHATSAPP_FROM := sender,
             TWILIO_CONTENT_SID_CONCERT := template, messages_create := client\<rparr>"
  shows "(\<exists>r. fst (send_whatsapp_template_concert env to_number name seat event_time w) = Inr r)
     \<and> sheet (snd (send_whatsapp_template_concert env to_number name seat event_time w)) = sheet w
     \<and> (\<not> creds \<longrightarrow>
          fst (send_whatsapp_template_concert env to_number name seat event_time w) = Inr None)
     \<and> ((\<forall>p. \<exists>e. messages_create env p = Inl e) \<longrightarrow>
          fst (send_whatsapp_template_concert env to_number name seat event_time w) = Inr None)
     \<and> fst (submit other request_json w) = fst (submit env request_json w)
     \<and> sheet (snd (submit other request_json w)) = sheet (snd (submit env request_json w))"
proof -
  have a: "\<exists>r. fst (send_whatsapp_template_concert env to_number name seat event_time w) = Inr r"
    and b: "sheet (snd (send_whatsapp_template_concert env to_number name seat event_time w)) = sheet w"
    using send_result [of env to_number name seat event_time w] by auto
  have c: "\<not> creds \<longrightarrow>
          fst (send_whatsapp_template_concert env to_number name seat event_time w) = Inr None"
    unfolding creds_def using send_missing_credentials [of env to_number name seat event_time w]
    by blast
  have d: "(\<forall>p. \<exists>e. messages_create env p = Inl e) \<longrightarrow>
          fst (send_whatsapp_template_concert env to_number name seat event_time w) = Inr None"
    using send_client_raises [of env to_number name seat event_time w] by blast
  have e: "fst (submit other request_json w) = fst (submit env request_json w)
     \<and> sheet (snd (submit other request_json w)) = sheet (snd (submit env request_json w))"
    by (rule submit_sim) (simp_all add: other_def event_time_of_def)
  show ?thesis using a b c d e by blast
qed

theorem notification_never_fails_booking_witness:
  "fst (send_whatsapp_template_concert no_notifier_env ''9876543210'' ''Asha'' (JInt 10) ''7 PM''
         header_world) = Inr None
   \<and> fst (submit no_notifier_env
        (JObj [(''user_code'', JStr ''A1''), (''name'', JStr ''Asha,Ravi''),
               (''mobile'', JStr ''9876543210,9988776655''), (''seats'', JList [JInt 10, JInt 11])])
        header_world)
     = \<lparr>status = 200, body = OkMessage True ''Thank you for registering! Seat(s) 10, 11 confirmed.''\<rparr>
   \<and> sheet (snd (submit no_notifier_env
        (JObj [(''user_code'', JStr ''A1''), (''name'', JStr ''Asha,Ravi''),
               (''mobile'', JStr ''9876543210,9988776655''), (''seats'', JList [JInt 10, JInt 11])])
        header_world))
     = [[''Timestamp'', ''User Code'', ''Name'', ''Mobile'', ''Selected Seats''],
        [''2026-01-01 10:00:00'', ''A1'', ''Asha'', ''9876543210'', ''10''],
        [''2026-01-01 10:00:00'', ''A1'', ''Ravi'', ''9988776655'', ''11'']]"
proof -
  let ?request = "JObj [(''user_code'', JStr ''A1''), (''name'', JStr ''Asha,Ravi''),
               (''mobile'', JStr ''9876543210,9988776655''), (''seats'', JList [JInt 10, JInt 11])]"
  have restored: "no_notifier_env\<lparr>TWILIO_SID := Some ''AC0001'', TWILIO_AUTH := Some ''secret'',
        TWILIO_WHATSAPP_FROM := Some ''whatsapp:+919901760422'',
        TWILIO_CONTENT_SID_CONCERT := Some ''HX0001'',
        messages_create := (\<lambda>p. Inr ''SM0001'')\<rparr> = example_env"
    by (simp add: no_notifier_env_def example_env_def)
  have missing: "\<not> (is_set (TWILIO_SID no_notifier_env) \<and> is_set (TWILIO_AUTH no_notifier_env)
      \<and> is_set (TWILIO_WHATSAPP_FROM no_notifier_env)
      \<and> is_set (TWILIO_CONTENT_SID_CONCERT no_notifier_env))"
    by (simp add: no_notifier_env_def is_set_def)
  have raising: "\<forall>p. \<exists>e. messages_create no_notifier_env p = Inl e"
    by (simp add: no_notifier_env_def)
  have served: "submit example_env ?request header_world =
      (\<lparr>status = 200, body = OkMessage True ''Thank you for registering! Seat(s) 10, 11 confirmed.''\<rparr>,
       \<lparr>sheet = [[''Timestamp'', ''User Code'', ''Name'', ''Mobile'', ''Selected Seats''],
                 [''2026-01-01 10:00:00'', ''A1'', ''Asha'', ''9876543210'', ''10''],
                 [''2026-01-01 10:00:00'', ''A1'', ''Ravi'', ''9988776655'', ''11'']],
        printed = [Info_sending \<lparr>from_ = Some ''whatsapp:+919901760422'',
                     to = ''whatsapp:+919876543210'', content_sid = Some ''HX0001'',
                     content_variables = [(''1'', ''Asha''), (''2'', ''10''),
                       (''3'', ''January 31st, 2026 at 7:00 PM'')]\<rparr>,
                   Info_sent ''SM0001'',
                   Info_sending \<lparr>from_ = Some ''whatsapp:+919901760422'',
                     to = ''whatsapp:+919988776655'', content_sid = Some ''HX0001'',
                     content_variables = [(''1'', ''Ravi''), (''2'', ''11''),
                       (''3'', ''January 31st, 2026 at 7:00 PM'')]\<rparr>,
                   Info_sent ''SM0001'']\<rparr>)"
    by code_simp
  show ?thesis
    using notification_never_fails_booking [where env = no_notifier_env
        and to_number = "''9876543210''" and name = "''Asha''" and seat = "JInt 10"
        and event_time = "''7 PM''" and w = header_world and sid = "Some ''AC0001''"
        and auth = "Some ''secret''" and sender = "Some ''whatsapp:+919901760422''"
        and template = "Some ''HX0001''" and client = "\<lambda>p. Inr ''SM0001''"
        and request_json = ?request]
      missing raising
    unfolding restored served by simp
qed

subsection \<open>Validation of a booking\<close>

lemma normalize_names_empty: "normalize_names_to_list (JStr []) = []"
  by (simp add: normalize_names_to_list_def strip_def)

lemma booking_rows_invalid_seats:
  assumes "normalize_names_to_list (case map_of kvs ''name'' of None \<Rightarrow> JStr [] | Some v \<Rightarrow> v) \<noteq> []"
    and "normalize_mobile_to_list (case map_of kvs ''mobile'' of None \<Rightarrow> JStr [] | Some v \<Rightarrow> v)
          = Inr mobiles"
    and "mobiles \<noteq> []"
    and "normalize_seats (case map_of kvs ''seats'' of None \<Rightarrow> JList [] | Some v \<Rightarrow> v) = Inr seats"
    and "filter (\<lambda>s. int_value s < 1 \<or> int_value s > 105) seats \<noteq> []"
  shows "booking_rows (JObj kvs) =
     Returned \<lparr>status = 400,
       body = OkMessage False (''Invalid seats: ''
                @ py_str (JList (filter (\<lambda>s. int_value s < 1 \<or> int_value s > 105) seats)))\<rparr>"
proof -
  have "seats \<noteq> []" using assms(5) by auto
  then show ?thesis
    using assms by (simp add: booking_rows_def dict_get_def Let_def)
qed

lemma submit_single:
  assumes "kvs \<noteq> []" and "map_of kvs ''users'' = None" and "get_sheet env w = Inr ws"
  shows "submit env (JObj kvs) w =
     (case booking_loop env (now env) [JObj kvs] [] ws of (f, w1) \<Rightarrow> (finish f, w1))"
  using assms by (simp add: submit_def bookings_of_def py_iter_def Let_def)

lemma booking_rows_Returned_400: "booking_rows b = Returned r \<Longrightarrow> status r = 400"
  by (auto simp: booking_rows_def Let_def split: sum.splits if_splits)

text \<open>
  Claim C7, as amended. When the loop of \<open>submit\<close> reaches a booking whose names and mobiles
  normalize to lists that are not empty and whose normalized seats hold a value outside 1
  to 105, it returns status 400 with the message \<open>Invalid seats:\<close> followed by the list of
  exactly the seats out of range, in their order, and leaves the world as it was: no row is
  appended for that booking. Nothing is asked of the pairing, which comes after this check.
  For a request that is this one booking, the world of the answer is the one \<open>get_sheet\<close>
  returned.
\<close>

theorem invalid_seats_rejected:
  fixes kvs :: "(string \<times> json) list"
  defines "field key fallback \<equiv> (case map_of kvs key of None \<Rightarrow> fallback | Some v \<Rightarrow> v)"
  defines "invalid seats \<equiv> filter (\<lambda>s. int_value s < 1 \<or> int_value s > 105) seats"
  assumes names: "normalize_names_to_list (field ''name'' (JStr [])) \<noteq> []"
    and mobiles: "normalize_mobile_to_list (field ''mobile'' (JStr [])) = Inr mobiles"
    and some_mobile: "mobiles \<noteq> []"
    and seats: "normalize_seats (field ''seats'' (JList [])) = Inr seats"
    and out: "\<exists>s\<in>set seats. int_value s < 1 \<or> int_value s > 105"
  shows "booking_loop env timestamp (JObj kvs # rest) all_confirmed w =
           (Returned \<lparr>status = 400,
              body = OkMessage False (''Invalid seats: '' @ py_str (JList (invalid seats)))\<rparr>, w)
     \<and> (map_of kvs ''users'' = None \<and> get_sheet env w = Inr ws \<longrightarrow>
          submit env (JObj kvs) w =
            (\<lparr>status = 400,
              body = OkMessage False (''Invalid seats: '' @ py_str (JList (invalid seats)))\<rparr>, ws))
     \<and> set (invalid seats) = {s \<in> set seats. int_value s < 1 \<or> int_value s > 105}"
proof -
  have nonempty: "filter (\<lambda>s. int_value s < 1 \<or> int_value s > 105) seats \<noteq> []"
    using out by (simp add: filter_empty_conv)
  have rows: "booking_rows (JObj kvs) =
     Returned \<lparr>status = 400,
       body = OkMessage False (''Invalid seats: '' @ py_str (JList (invalid seats)))\<rparr>"
    unfolding invalid_def
    by (rule booking_rows_invalid_seats [OF names [unfolded field_def] mobiles [unfolded field_def]
          some_mobile seats [unfolded field_def] nonempty])
  have loop: "\<And>bs conf v. booking_loop env timestamp (JObj kvs # bs) conf v =
           (Returned \<lparr>status = 400,
              body = OkMessage False (''Invalid seats: '' @ py_str (JList (invalid seats)))\<rparr>, v)"
    by (simp add: rows)
  have "kvs \<noteq> []"
  proof
    assume "kvs = []"
    then have "field ''name'' (JStr []) = JStr []" by (simp add: field_def)
    with names show False by (simp add: normalize_names_empty)
  qed
  then have route: "map_of kvs ''users'' = None \<and> get_sheet env w = Inr ws \<longrightarrow>
          submit env (JObj kvs) w =
            (\<lparr>status = 400,
              body = OkMessage False (''Invalid seats: '' @ py_str (JList (invalid seats)))\<rparr>, ws)"
    by (simp add: submit_single rows finish_def)
  have exact: "set (invalid seats) = {s \<in> set seats. int_value s < 1 \<or> int_value s > 105}"
    by (simp add: invalid_def)
  show ?thesis using loop route exact by blast
qed

theorem invalid_seats_rejected_witness:
  "submit example_env
     (JObj [(''user_code'', JStr ''A1''), (''name'', JStr ''Asha''), (''mobile'', JStr ''12345''),
            (''seats'', JList [JInt 106, JInt 5, JInt 0])])
     header_world
   = (\<lparr>status = 400, body = OkMessage False ''Invalid seats: [106, 0]''\<rparr>, header_world)"
proof -
  let ?kvs = "[(''user_code'', JStr ''A1''), (''name'', JStr ''Asha''), (''mobile'', JStr ''12345''),
            (''seats'', JList [JInt 106, JInt 5, JInt 0])]"
  let ?seats = "[JInt 106, JInt 5, JInt 0]"
  have names: "normalize_names_to_list (case map_of ?kvs ''name'' of None \<Rightarrow> JStr [] | Some v \<Rightarrow> v) \<noteq> []"
    by code_simp
  have mobiles: "normalize_mobile_to_list (case map_of ?kvs ''mobile'' of None \<Rightarrow> JStr [] | Some v \<Rightarrow> v)
      = Inr [''12345'']"
    by code_simp
  have some_mobile: "[''12345''] \<noteq> []"
    by simp
  have seats: "normalize_seats (case map_of ?kvs ''seats'' of None \<Rightarrow> JList [] | Some v \<Rightarrow> v) = Inr ?seats"
    by code_simp
  have out: "\<exists>s\<in>set ?seats. int_value s < 1 \<or> int_value s > 105"
    by simp
  have no_users: "map_of ?kvs ''users'' = None"
    by simp
  have opened: "get_sheet example_env header_world = Inr header_world"
    by (simp add: get_sheet_def example_env_def header_world_def)
  have listed: "''Invalid seats: '' @ py_str (JList (filter (\<lambda>s. int_value s < 1 \<or> int_value s > 105) ?seats))
      = ''Invalid seats: [106, 0]''"
    by code_simp
  have "map_of ?kvs ''users'' = None \<and> get_sheet example_env header_world = Inr header_world \<longrightarrow>
      submit example_env (JObj ?kvs) header_world =
        (\<lparr>status = 400,
          body = OkMessage False (''Invalid seats: ''
                   @ py_str (JList (filter (\<lambda>s. int_value s < 1 \<or> int_value s > 105) ?seats)))\<rparr>,
         header_world)"
    using invalid_seats_rejected [where kvs = ?kvs and mobiles = "[''12345'']" and seats = ?seats
        and env = example_env and w = header_world and ws = header_world,
        OF names mobiles some_mobile seats out]
    by blast
  with no_users opened show ?thesis
    unfolding listed by blast
qed

text \<open>
  Claim C7, as stated, fails on a booking with seat 106 and an empty name: the check of the
  required fields comes first, and the message of the 400 response does not list the seat.
\<close>

theorem invalid_seat_without_name_counterexample:
  "normalize_seats (JList [JInt 106]) = Inr [JInt 106]
   \<and> submit example_env
       (JObj [(''user_code'', JStr ''A1''), (''name'', JStr ''''), (''mobile'', JStr ''9876543210''),
              (''seats'', JList [JInt 106])])
       header_world
     = (\<lparr>status = 400, body = OkMessage False ''Name, Mobile, Seat required''\<rparr>, header_world)
   \<and> ''Name, Mobile, Seat required'' \<noteq> ''Invalid seats: [106]''"
  by code_simp

subsection \<open>Several bookings in one request\<close>

lemma append_loop_Continue:
  "append_loop env ts et rows conf w = (Continue conf', w') \<Longrightarrow>
   sheet w' = sheet w @ map (\<lambda>(uc, nm, mb, seat). [ts, uc, nm, mb, py_str seat]) rows
   \<and> conf' = conf @ map (\<lambda>(uc, nm, mb, seat). seat) rows"
proof (induction rows arbitrary: conf w)
  case Nil
  then show ?case by simp
next
  case (Cons row rows)
  obtain uc nm mb seat where row: "row = (uc, nm, mb, seat)"
    by (cases row) auto
  let ?r = "[ts, uc, nm, mb, py_str seat]"
  show ?case
  proof (cases "append_row env w ?r")
    case (Inl e)
    with Cons.prems show ?thesis by (simp add: row)
  next
    case (Inr w1)
    then have s1: "sheet w1 = sheet w @ [?r]"
      by (simp add: append_row_Inr)
    obtain r w2 where n: "send_whatsapp_template_concert env mb nm seat et w1 = (Inr r, w2)"
      and s2: "sheet w2 = sheet w1"
      using send_result [of env mb nm seat et w1] by blast
    have "append_loop env ts et rows (conf @ [seat]) w2 = (Continue conf', w')"
      using Cons.prems by (simp add: row Inr n)
    from Cons.IH [OF this] show ?thesis
      by (simp add: row s1 s2)
  qed
qed

lemma booking_loop_Continue:
  "booking_loop env ts bs conf w = (Continue conf', w') \<Longrightarrow>
   \<exists>new added. sheet w' = sheet w @ new \<and> conf' = conf @ added
      \<and> map (\<lambda>row. row ! 4) new = map py_str added"
proof (induction bs arbitrary: conf w)
  case Nil
  then show ?case by simp
next
  case (Cons b bs)
  show ?case
  proof (cases "booking_rows b")
    case (Raised e)
    with Cons.prems show ?thesis by simp
  next
    case (Returned r)
    with Cons.prems show ?thesis by simp
  next
    case (Continue rows)
    obtain f w1 where l: "append_loop env ts (event_time_of env) rows conf w = (f, w1)"
      by (cases "append_loop env ts (event_time_of env) rows conf w")
    show ?thesis
    proof (cases f)
      case (Raised e)
      with Cons.prems Continue l show ?thesis by simp
    next
      case (Returned r)
      with Cons.prems Continue l show ?thesis by simp
    next
      case c1: (Continue conf1)
      let ?mine = "map (\<lambda>(uc, nm, mb, seat). [ts, uc, nm, mb, py_str seat]) rows"
      let ?seats = "map (\<lambda>(uc, nm, mb, seat). seat) rows"
      have here: "sheet w1 = sheet w @ ?mine \<and> conf1 = conf @ ?seats"
        using append_loop_Continue [of env ts "event_time_of env" rows conf w conf1 w1] l c1 by simp
      have cells: "map (\<lambda>row. row ! 4) ?mine = map py_str ?seats"
        by (induction rows) auto
      have "booking_loop env ts bs conf1 w1 = (Continue conf', w')"
        using Cons.prems Continue l c1 by simp
      from Cons.IH [OF this] obtain new added where
        rest: "sheet w' = sheet w1 @ new" "conf' = conf1 @ added"
          "map (\<lambda>row. row ! 4) new = map py_str added"
        by blast
      have "sheet w' = sheet w @ (?mine @ new) \<and> conf' = conf @ (?seats @ added)
          \<and> map (\<lambda>row. row ! 4) (?mine @ new) = map py_str (?seats @ added)"
        using here rest cells by simp
      then show ?thesis by blast
    qed
  qed
qed

lemma booking_loop_append:
  "booking_loop env ts pre conf w = (Continue conf1, w1) \<Longrightarrow>
   booking_loop env ts (pre @ rest) conf w = booking_loop env ts rest conf1 w1"
proof (induction pre arbitrary: conf w)
  case Nil
  then show ?case by simp
next
  case (Cons b bs)
  show ?case
  proof (cases "booking_rows b")
    case (Raised e)
    with Cons.prems show ?thesis by simp
  next
    case (Returned r)
    with Cons.prems show ?thesis by simp
  next
    case (Continue rows)
    obtain f w2 where l: "append_loop env ts (event_time_of env) rows conf w = (f, w2)"
      by (cases "append_loop env ts (event_time_of env) rows conf w")
    show ?thesis
    proof (cases f)
      case (Raised e)
      with Cons.prems Continue l show ?thesis by simp
    next
      case (Returned r)
      with Cons.prems Continue l show ?thesis by simp
    next
      case c1: (Continue conf2)
      have "booking_loop env ts bs conf2 w2 = (Continue conf1, w1)"
        using Cons.prems Continue l c1 by simp
      from Cons.IH [OF this] show ?thesis
        by (simp add: Continue l c1)
    qed
  qed
qed

lemma submit_after_earlier:
  assumes "py_iter (bookings_of request_json) = Inr (pre @ b # post)"
    and "get_sheet env w = Inr ws"
    and "booking_loop env (now env) pre [] ws = (Continue confirmed, w1)"
  shows "submit env request_json w =
     (case booking_loop env (now env) (b # post) confirmed w1 of (f, w2) \<Rightarrow> (finish f, w2))"
  using assms by (simp add: submit_def Let_def booking_loop_append)

text \<open>
  Claim C8. Let the loop of \<open>submit\<close> have gone through the earlier bookings of a request,
  and let the next booking fail its validation or its pairing. Then the route answers with
  the 400 response of the validation or with status 500 and the text of the exception, both
  of which are determined by the failing booking alone, and the world it leaves is the one
  after the earlier bookings: below the rows the sheet had, it holds one row for every seat
  confirmed so far.
\<close>

theorem no_rollback_after_failure:
  assumes bookings: "py_iter (bookings_of request_json) = Inr (pre @ b # post)"
    and opened: "get_sheet env w = Inr ws"
    and earlier: "booking_loop env (now env) pre [] ws = (Continue confirmed, w1)"
    and fails: "\<forall>rows. booking_rows b \<noteq> Continue rows"
  shows "(\<forall>r. booking_rows b = Returned r \<longrightarrow>
            submit env request_json w = (r, w1) \<and> status r = 400)
       \<and> (\<forall>e. booking_rows b = Raised e \<longrightarrow>
            submit env request_json w =
              (\<lparr>status = 500, body = OkMessage False (''Failed: '' @ str_exn e)\<rparr>, w1))
       \<and> (status (fst (submit env request_json w)) = 400
            \<or> status (fst (submit env request_json w)) = 500)
       \<and> snd (submit env request_json w) = w1
       \<and> (\<exists>new. sheet w1 = sheet ws @ new \<and> map (\<lambda>row. row ! 4) new = map py_str confirmed)"
proof -
  note after = submit_after_earlier [OF bookings opened earlier]
  have returned: "\<forall>r. booking_rows b = Returned r \<longrightarrow>
            submit env request_json w = (r, w1) \<and> status r = 400"
    by (simp add: after finish_def booking_rows_Returned_400)
  have raised: "\<forall>e. booking_rows b = Raised e \<longrightarrow>
            submit env request_json w =
              (\<lparr>status = 500, body = OkMessage False (''Failed: '' @ str_exn e)\<rparr>, w1)"
    by (simp add: after finish_def)
  have either: "(\<exists>r. booking_rows b = Returned r) \<or> (\<exists>e. booking_rows b = Raised e)"
    using fails by (cases "booking_rows b") auto
  have codes: "status (fst (submit env request_json w)) = 400
            \<or> status (fst (submit env request_json w)) = 500"
    using either returned raised by auto
  have world: "snd (submit env request_json w) = w1"
    using either returned raised by auto
  have kept: "\<exists>new. sheet w1 = sheet ws @ new \<and> map (\<lambda>row. row ! 4) new = map py_str confirmed"
    using booking_loop_Continue [OF earlier] by auto
  show ?thesis using returned raised codes world kept by blast
qed

theorem no_rollback_after_failure_witness:
  "submit example_env
     (JObj [(''users'', JList
        [JObj [(''user_code'', JStr ''A1''), (''name'', JStr ''Asha''),
               (''mobile'', JStr ''9876543210''), (''seats'', JList [JInt 10])],
         JObj [(''user_code'', JStr ''A2''), (''name'', JStr ''Ravi''),
               (''mobile'', JStr ''12345''), (''seats'', JList [JInt 11])]])])
     header_world
   = (\<lparr>status = 500, body = OkMessage False ''Failed: Invalid mobile number''\<rparr>,
      \<lparr>sheet = [[''Timestamp'', ''User Code'', ''Name'', ''Mobile'', ''Selected Seats''],
                [''2026-01-01 10:00:00'', ''A1'', ''Asha'', ''9876543210'', ''10'']],
       printed = [Info_sending \<lparr>from_ = Some ''whatsapp:+919901760422'',
                    to = ''whatsapp:+919876543210'', content_sid = Some ''HX0001'',
                    content_variables = [(''1'', ''Asha''), (''2'', ''10''),
                      (''3'', ''January 31st, 2026 at 7:00 PM'')]\<rparr>,
                  Info_sent ''SM0001'']\<rparr>)"
proof -
  let ?first = "JObj [(''user_code'', JStr ''A1''), (''name'', JStr ''Asha''),
               (''mobile'', JStr ''9876543210''), (''seats'', JList [JInt 10])]"
  let ?second = "JObj [(''user_code'', JStr ''A2''), (''name'', JStr ''Ravi''),
               (''mobile'', JStr ''12345''), (''seats'', JList [JInt 11])]"
  let ?request = "JObj [(''users'', JList [?first, ?second])]"
  let ?after = "\<lparr>sheet = [[''Timestamp'', ''User Code'', ''Name'', ''Mobile'', ''Selected Seats''],
                [''2026-01-01 10:00:00'', ''A1'', ''Asha'', ''9876543210'', ''10'']],
       printed = [Info_sending \<lparr>from_ = Some ''whatsapp:+919901760422'',
                    to = ''whatsapp:+919876543210'', content_sid = Some ''HX0001'',
                    content_variables = [(''1'', ''Asha''), (''2'', ''10''),
                      (''3'', ''January 31st, 2026 at 7:00 PM'')]\<rparr>,
                  Info_sent ''SM0001'']\<rparr>"
  have bookings: "py_iter (bookings_of ?request) = Inr ([?first] @ ?second # [])"
    by code_simp
  have opened: "get_sheet example_env header_world = Inr header_world"
    by (simp add: get_sheet_def example_env_def header_world_def)
  have earlier: "booking_loop example_env (now example_env) [?first] [] header_world
      = (Continue [JInt 10], ?after)"
    by code_simp
  have pairing: "booking_rows ?second = Raised (ValueError ''Invalid mobile number'')"
    by code_simp
  then have fails: "\<forall>rows. booking_rows ?second \<noteq> Continue rows"
    by simp
  have "\<forall>e. booking_rows ?second = Raised e \<longrightarrow>
      submit example_env ?request header_world =
        (\<lparr>status = 500, body = OkMessage False (''Failed: '' @ str_exn e)\<rparr>, ?after)"
    using no_rollback_after_failure [OF bookings opened earlier fails] by blast
  with pairing show ?thesis by simp
qed

end
